theory Spec2Isabelle
  imports Complex_Main
begin

section \<open>Exceptions and sockets\<close>

text \<open>
  The exception values of \<^verbatim>\<open>anyio/__init__.py\<close>. \<open>OSError\<close> and \<open>LookupError\<close> carry their message
  and the \<^verbatim>\<open>__cause__\<close> that \<^verbatim>\<open>raise ... from cause\<close> attaches; \<open>ExceptionGroup\<close> is the backend's
  aggregate of several exceptions; \<open>CancelledError\<close> is the backend's cancellation exception, which is
  not an \<open>OSError\<close>; \<open>GAIError\<close> is \<^verbatim>\<open>socket.gaierror\<close>, the error of address resolution, with its
  error number and message; \<open>CalledProcessError\<close> carries return code, command, output and stderr.
\<close>

datatype command = Shell string | Argv "string list"

datatype exc =
    OSError string "exc option"
  | GAIError int string
  | ExceptionGroup "exc list"
  | CancelledError
  | RuntimeError string
  | LookupError string "exc option"
  | ImportError string
  | ValueError string
  | TimeoutError
  | CalledProcessError int command "string option" "string option"
  | OtherError string

text \<open>What \<^verbatim>\<open>except OSError\<close> catches (\<^verbatim>\<open>socket.gaierror\<close> and the built-in \<open>TimeoutError\<close> are
  subclasses of \<open>OSError\<close>).\<close>

fun is_OSError :: "exc \<Rightarrow> bool" where
  "is_OSError (OSError m c) = True"
| "is_OSError (GAIError n m) = True"
| "is_OSError TimeoutError = True"
| "is_OSError x = False"

datatype sock_state = SockOpen | SockClosed

text \<open>
  Operations on a raw socket. Each may raise; a function \<open>raises\<close> from operations to optional
  exceptions says which do and with what.
\<close>

datatype sock_op =
    SetBlocking           \<comment> \<open>\<^verbatim>\<open>raw_socket.setblocking(False)\<close>\<close>
  | SetNoDelay            \<comment> \<open>\<^verbatim>\<open>setsockopt(IPPROTO_TCP, TCP_NODELAY, 1)\<close>\<close>
  | SetV6Only             \<comment> \<open>\<^verbatim>\<open>setsockopt(IPPROTO_IPV6, IPV6_V6ONLY, v6only)\<close>\<close>
  | SetExclusiveAddrUse   \<comment> \<open>\<^verbatim>\<open>setsockopt(SOL_SOCKET, SO_EXCLUSIVEADDRUSE, 1)\<close>\<close>
  | SetReuseAddr          \<comment> \<open>\<^verbatim>\<open>setsockopt(SOL_SOCKET, SO_REUSEADDR, 1)\<close>\<close>
  | Bind
  | Listen
  | Connect
  | BackendCall           \<comment> \<open>the awaited call into the backend\<close>

text \<open>The exception of the first operation of a sequence that raises.\<close>

fun first_raise :: "(sock_op \<Rightarrow> exc option) \<Rightarrow> sock_op list \<Rightarrow> exc option" where
  "first_raise raises [] = None"
| "first_raise raises (p # ps) =
     (case raises p of Some x \<Rightarrow> Some x | None \<Rightarrow> first_raise raises ps)"

definition no_raise :: "sock_op \<Rightarrow> exc option" where
  "no_raise p = None"

section \<open>connect_tcp: the race of connection attempts\<close>

text \<open>
  \<^verbatim>\<open>connect_tcp\<close> opens a task group, spawns one \<^verbatim>\<open>try_connect\<close> task per entry of
  \<^verbatim>\<open>target_addrs\<close> and waits on each task's event under \<^verbatim>\<open>move_on_after(happy_eyeballs_delay)\<close>.
  The tasks run cooperatively: a task runs without interruption from one \<^verbatim>\<open>await\<close> to the next. The
  model is a step function over the shared variables (\<^verbatim>\<open>stream\<close>, \<^verbatim>\<open>oserrors\<close>, the cancel scope of the
  task group) and the program counter of every task; a schedule is a list of choices, each naming
  the task that runs next and how the backend resolves the \<^verbatim>\<open>await\<close> it was suspended in. A choice
  that is not enabled leaves the state as it is.

  The results of \<^verbatim>\<open>get_bind_address\<close> and \<^verbatim>\<open>socket.getaddrinfo\<close> are parameters: \<open>interface\<close> and the
  list \<open>target_addrs\<close>.
\<close>

type_synonym sockaddr = "string \<times> nat"

text \<open>An entry of \<^verbatim>\<open>getaddrinfo\<close>: \<^verbatim>\<open>(af, *rest, sa)\<close>, \<open>rest\<close> being type, proto and canonname.\<close>

type_synonym addrinfo = "int \<times> (int \<times> int \<times> string) \<times> sockaddr"

definition AF_INET :: int where "AF_INET = 2"
definition AF_INET6 :: int where "AF_INET6 = 10"

record config =
  interface :: "string option"
  bind_port :: "nat option"
  happy_eyeballs_delay :: rat

text \<open>The default of the keyword argument: \<^verbatim>\<open>happy_eyeballs_delay: float = 0.25\<close>.\<close>

definition default_config :: config where
  "default_config = \<lparr>interface = None, bind_port = None, happy_eyeballs_delay = 1 / 4\<rparr>"

text \<open>The stream object the backend's \<^verbatim>\<open>connect_tcp(raw_socket, sa)\<close> returns wraps the raw socket of
  the attempt, named here by the attempt's index.\<close>

datatype tcp_stream = TCPSocketStream nat

datatype attempt_pc =
    A_Start      \<comment> \<open>spawned, \<^verbatim>\<open>try_connect\<close> has not run yet\<close>
  | A_Connect    \<comment> \<open>suspended in \<^verbatim>\<open>await asynclib.connect_tcp(raw_socket, sa)\<close>\<close>
  | A_Cancel     \<comment> \<open>suspended in \<^verbatim>\<open>await tg.cancel_scope.cancel()\<close>\<close>
  | A_Done       \<comment> \<open>\<^verbatim>\<open>try_connect\<close> has returned or raised\<close>

record attempt =
  a_af :: int
  a_sa :: sockaddr
  a_pc :: attempt_pc
  a_socket :: "sock_state option"   \<comment> \<open>\<open>None\<close>: no raw socket was created\<close>
  a_event :: bool                   \<comment> \<open>the attempt's own event is set\<close>
  a_raised :: "exc option"          \<comment> \<open>the exception that left \<^verbatim>\<open>try_connect\<close>\<close>

datatype launcher_pc =
    L_Loop                 \<comment> \<open>at the head of the \<^verbatim>\<open>for\<close> loop\<close>
  | L_Wait nat rat         \<comment> \<open>in \<^verbatim>\<open>event.wait()\<close> of attempt \<open>k\<close> under \<^verbatim>\<open>move_on_after(d)\<close>\<close>
  | L_Join                 \<comment> \<open>leaving the \<^verbatim>\<open>async with\<close> block: waiting for the children\<close>
  | L_Done                 \<comment> \<open>past the task group\<close>

record race =
  stream :: "tcp_stream option"
  oserrors :: "exc list"
  cancel_called :: bool
  attempts :: "attempt list"
  launcher :: launcher_pc
  body_exc :: "exc option"   \<comment> \<open>the exception that left the body of the \<^verbatim>\<open>async with\<close>\<close>

definition init :: race where
  "init = \<lparr>stream = None, oserrors = [], cancel_called = False, attempts = [],
           launcher = L_Loop, body_exc = None\<rparr>"

definition new_attempt :: "addrinfo \<Rightarrow> attempt" where
  "new_attempt ai = (case ai of (af, rest, sa) \<Rightarrow>
     \<lparr>a_af = af, a_sa = sa, a_pc = A_Start, a_socket = None, a_event = False, a_raised = None\<rparr>)"

definition upd_attempt :: "nat \<Rightarrow> (attempt \<Rightarrow> attempt) \<Rightarrow> race \<Rightarrow> race" where
  "upd_attempt i f s = s\<lparr>attempts := (attempts s)[i := f (attempts s ! i)]\<rparr>"

text \<open>\<^verbatim>\<open>finally: await event.set()\<close>, after which the task is over; \<open>r\<close> is the exception that is
  re-raised, if any.\<close>

definition finish :: "nat \<Rightarrow> exc option \<Rightarrow> race \<Rightarrow> race" where
  "finish i r s = upd_attempt i (\<lambda>a. a\<lparr>a_event := True, a_pc := A_Done, a_raised := r\<rparr>) s"

text \<open>\<^verbatim>\<open>raw_socket.close()\<close>\<close>

definition close_socket :: "nat \<Rightarrow> race \<Rightarrow> race" where
  "close_socket i s = upd_attempt i (\<lambda>a. a\<lparr>a_socket := Some SockClosed\<rparr>) s"

text \<open>
  An exception \<open>x\<close> raised inside the main \<^verbatim>\<open>try\<close> of \<^verbatim>\<open>try_connect\<close>:
  \<^verbatim>\<open>except OSError as exc: oserrors.append(exc); raw_socket.close()\<close>,
  \<^verbatim>\<open>except BaseException: raw_socket.close(); raise\<close>, and the \<^verbatim>\<open>finally\<close> after either.
\<close>

definition handle_exc :: "nat \<Rightarrow> exc \<Rightarrow> race \<Rightarrow> race" where
  "handle_exc i x s =
     (if is_OSError x
      then finish i None (close_socket i (s\<lparr>oserrors := oserrors s @ [x]\<rparr>))
      else finish i (Some x) (close_socket i s))"

datatype wakeup = Fired | TimedOut | WaitCancelled

datatype choice =
    LStep                             \<comment> \<open>the launcher runs from the loop head\<close>
  | LWake wakeup                      \<comment> \<open>the launcher's wait on the event ends\<close>
  | LJoin                             \<comment> \<open>the task group's exit completes\<close>
  | Begin nat "string option" "sock_op \<Rightarrow> exc option"
      \<comment> \<open>attempt \<open>i\<close> runs to its first \<^verbatim>\<open>await\<close>; \<^verbatim>\<open>socket.socket\<close> fails with an \<open>OSError\<close> of that
          message, or the operations on the new socket raise as the function says\<close>
  | ConnectDone nat "exc option"      \<comment> \<open>the backend's \<^verbatim>\<open>connect_tcp\<close> of attempt \<open>i\<close> returns or raises\<close>
  | CancelDone nat "exc option"       \<comment> \<open>\<^verbatim>\<open>tg.cancel_scope.cancel()\<close> of attempt \<open>i\<close> returns or raises\<close>

text \<open>
  The steps of an attempt follow \<^verbatim>\<open>try_connect\<close> from one \<^verbatim>\<open>await\<close> to the next:
  \<^item> \<open>Begin\<close>: \<^verbatim>\<open>socket.socket(af, SOCK_STREAM)\<close> (documented to fail with \<open>OSError\<close>, which is recorded
    before the event is set and the task returns), then \<^verbatim>\<open>setblocking\<close>, \<^verbatim>\<open>setsockopt\<close> and, when
    both \<^verbatim>\<open>interface\<close> and \<^verbatim>\<open>bind_port\<close> are given, \<^verbatim>\<open>bind\<close>, up to the call of the backend's
    \<^verbatim>\<open>connect_tcp\<close>;
  \<^item> \<open>ConnectDone\<close>: the backend's \<^verbatim>\<open>connect_tcp\<close> returns or raises; on a return,
    \<^verbatim>\<open>if stream is None: stream = result; await tg.cancel_scope.cancel()\<close>;
  \<^item> \<open>CancelDone\<close>: \<^verbatim>\<open>cancel()\<close> returns or raises.
  Modelled from the spec: \<^verbatim>\<open>cancel()\<close> of a scope sets its cancel-called flag, and \<^verbatim>\<open>set()\<close> of an
  event sets it, before either suspends (the backend's classes are not among the sources).

  The steps of the launcher follow the body of \<^verbatim>\<open>async with create_task_group() as tg\<close>:
  \<^item> \<open>LStep\<close>: the loop head; with a candidate left, \<^verbatim>\<open>create_event()\<close>, \<^verbatim>\<open>tg.spawn(try_connect, ...)\<close>
    and the entry into \<^verbatim>\<open>move_on_after(happy_eyeballs_delay)\<close> and \<^verbatim>\<open>event.wait()\<close>; with none left, the
    end of the body;
  \<^item> \<open>LWake\<close>: the wait ends because the event is set, because the delay has passed, or because
    the launcher is cancelled;
  \<^item> \<open>LJoin\<close>: all children are over and the task group is left.
\<close>

definition at_pc :: "race \<Rightarrow> nat \<Rightarrow> attempt_pc \<Rightarrow> bool" where
  "at_pc s i p = (i < length (attempts s) \<and> a_pc (attempts s ! i) = p)"

fun step :: "config \<Rightarrow> addrinfo list \<Rightarrow> choice \<Rightarrow> race \<Rightarrow> race" where
  "step cfg target_addrs LStep s =
     (if launcher s = L_Loop then
        (if length (attempts s) < length target_addrs
         then s\<lparr>attempts := attempts s @ [new_attempt (target_addrs ! length (attempts s))],
                launcher := L_Wait (length (attempts s)) (happy_eyeballs_delay cfg)\<rparr>
         else s\<lparr>launcher := L_Join\<rparr>)
      else s)"
| "step cfg target_addrs (LWake w) s =
     (case launcher s of
        L_Wait k d \<Rightarrow>
          (case w of
             Fired \<Rightarrow> if a_event (attempts s ! k) then s\<lparr>launcher := L_Loop\<rparr> else s
           | TimedOut \<Rightarrow> s\<lparr>launcher := L_Loop\<rparr>
           | WaitCancelled \<Rightarrow> s\<lparr>launcher := L_Join, body_exc := Some CancelledError\<rparr>)
      | _ \<Rightarrow> s)"
| "step cfg target_addrs LJoin s =
     (if launcher s = L_Join \<and> list_all (\<lambda>a. a_pc a = A_Done) (attempts s)
      then s\<lparr>launcher := L_Done\<rparr> else s)"
| "step cfg target_addrs (Begin i sock_err raises) s =
     (if at_pc s i A_Start then
        (case sock_err of
           Some m \<Rightarrow>
             upd_attempt i (\<lambda>a. a\<lparr>a_event := True, a_pc := A_Done\<rparr>)
               (s\<lparr>oserrors := oserrors s @ [OSError m None]\<rparr>)
         | None \<Rightarrow>
             (let s1 = upd_attempt i (\<lambda>a. a\<lparr>a_socket := Some SockOpen\<rparr>) s in
              case first_raise raises
                     ([SetBlocking, SetNoDelay] @
                      (if interface cfg \<noteq> None \<and> bind_port cfg \<noteq> None then [Bind] else [])) of
                Some x \<Rightarrow> handle_exc i x s1
              | None \<Rightarrow> upd_attempt i (\<lambda>a. a\<lparr>a_pc := A_Connect\<rparr>) s1))
      else s)"
| "step cfg target_addrs (ConnectDone i r) s =
     (if at_pc s i A_Connect then
        (case r of
           Some x \<Rightarrow> handle_exc i x s
         | None \<Rightarrow>
             (if stream s = None
              then upd_attempt i (\<lambda>a. a\<lparr>a_pc := A_Cancel\<rparr>)
                     (s\<lparr>stream := Some (TCPSocketStream i), cancel_called := True\<rparr>)
              else finish i None s))
      else s)"
| "step cfg target_addrs (CancelDone i r) s =
     (if at_pc s i A_Cancel then
        (case r of
           Some x \<Rightarrow> handle_exc i x s
         | None \<Rightarrow> finish i None s)
      else s)"

fun exec :: "config \<Rightarrow> addrinfo list \<Rightarrow> choice list \<Rightarrow> race \<Rightarrow> race" where
  "exec cfg target_addrs [] s = s"
| "exec cfg target_addrs (c # cs) s = exec cfg target_addrs cs (step cfg target_addrs c s)"

text \<open>
  Modelled from the spec: the exit of the task group (the backend's \<^verbatim>\<open>TaskGroup\<close> is not among the
  sources). A child's exception other than the cancellation signal is a failure; one failure is
  re-raised as it is, several are reported as one aggregate; cancellation with no failure is clean
  when the group's own scope was cancelled, and propagates otherwise.
\<close>

definition failures :: "race \<Rightarrow> exc list" where
  "failures s = filter (\<lambda>x. x \<noteq> CancelledError) (List.map_filter a_raised (attempts s))"

definition group_exit :: "race \<Rightarrow> exc option" where
  "group_exit s =
     (case failures s of
        [] \<Rightarrow> (if body_exc s = Some CancelledError \<and> \<not> cancel_called s
               then Some CancelledError else None)
      | [x] \<Rightarrow> Some x
      | xs \<Rightarrow> Some (ExceptionGroup xs))"

text \<open>
  The statements after the task group:
  \<^verbatim>\<open>if stream is None:
      cause = oserrors[0] if len(oserrors) == 1 else asynclib.ExceptionGroup(oserrors)
      raise OSError('All connection attempts failed') from cause
  return stream\<close>
\<close>

definition conclude :: "race \<Rightarrow> exc + tcp_stream" where
  "conclude s =
     (case stream s of
        None \<Rightarrow>
          Inl (OSError ''All connection attempts failed''
                 (Some (if length (oserrors s) = 1 then oserrors s ! 0
                        else ExceptionGroup (oserrors s))))
      | Some r \<Rightarrow> Inr r)"

text \<open>\<^verbatim>\<open>connect_tcp\<close> under a schedule: \<open>None\<close> when the schedule ends before the function does.\<close>

definition connect_tcp :: "config \<Rightarrow> addrinfo list \<Rightarrow> choice list \<Rightarrow> (exc + tcp_stream) option" where
  "connect_tcp cfg target_addrs sched =
     (let s = exec cfg target_addrs sched init in
      if launcher s = L_Done
      then Some (case group_exit s of Some x \<Rightarrow> Inl x | None \<Rightarrow> conclude s)
      else None)"


definition spawned :: "config \<Rightarrow> (exc + addrinfo list) \<Rightarrow> choice list \<Rightarrow> attempt list" where
  "spawned cfg gai sched =
     (case gai of
        Inl x \<Rightarrow> []
      | Inr target_addrs \<Rightarrow> attempts (exec cfg target_addrs sched init))"

text \<open>The choices of a schedule that change the winner slot, in order.\<close>

fun claims :: "config \<Rightarrow> addrinfo list \<Rightarrow> choice list \<Rightarrow> race \<Rightarrow> choice list" where
  "claims cfg target_addrs [] s = []"
| "claims cfg target_addrs (c # cs) s =
     (if stream (step cfg target_addrs c s) \<noteq> stream s then [c] else []) @
     claims cfg target_addrs cs (step cfg target_addrs c s)"

text \<open>The family and address an attempt was spawned with, and those of a candidate.\<close>

definition key :: "attempt \<Rightarrow> int \<times> sockaddr" where
  "key a = (a_af a, a_sa a)"

definition cand :: "addrinfo \<Rightarrow> int \<times> sockaddr" where
  "cand ai = (case ai of (af, rest, sa) \<Rightarrow> (af, sa))"

text \<open>An attempt that is over has set its event.\<close>

definition concluded_signalled :: "attempt \<Rightarrow> bool" where
  "concluded_signalled a = (a_pc a \<noteq> A_Done \<or> a_event a)"


text \<open>The attempt a choice belongs to; a schedule of the other tasks only; an attempt that is over
  with its event set.\<close>

fun attempt_of :: "choice \<Rightarrow> nat option" where
  "attempt_of (Begin i e raises) = Some i"
| "attempt_of (ConnectDone i r) = Some i"
| "attempt_of (CancelDone i r) = Some i"
| "attempt_of c = None"

definition others :: "nat \<Rightarrow> choice list \<Rightarrow> bool" where
  "others i sched = list_all (\<lambda>c. attempt_of c \<noteq> Some i) sched"

definition concluded :: "race \<Rightarrow> nat \<Rightarrow> bool" where
  "concluded s i = (at_pc s i A_Done \<and> a_event (attempts s ! i))"


section \<open>Socket constructors outside the race\<close>

text \<open>
  \<^verbatim>\<open>connect_unix\<close>, \<^verbatim>\<open>create_tcp_server\<close> and \<^verbatim>\<open>create_udp_socket\<close> create a raw socket, set it up and
  hand it to the backend. Every operation on the socket may raise; \<open>raises\<close> says which do and
  with what. The result is what the function returns or raises, and the state of the raw socket
  when it does (\<open>None\<close>: none was created).
\<close>

datatype sock_object = UNIXSocketStream | TCPListener | UDPSocket

type_synonym 'a sock_result = "(exc + 'a) \<times> sock_state option"

text \<open>
  \<^verbatim>\<open>try: ...; return await <backend call> except BaseException: raw_socket.close(); raise\<close>
  on an open socket, the operations of the \<^verbatim>\<open>try\<close> body being \<open>body\<close>.
\<close>

definition try_or_close :: "(sock_op \<Rightarrow> exc option) \<Rightarrow> sock_op list \<Rightarrow> 'a \<Rightarrow> 'a sock_result" where
  "try_or_close raises body obj =
     (case first_raise raises body of
        Some x \<Rightarrow> (Inl x, Some SockClosed)
      | None \<Rightarrow> (Inr obj, Some SockOpen))"

text \<open>Statements between \<^verbatim>\<open>socket.socket(...)\<close> and the \<^verbatim>\<open>try\<close>: an exception of theirs leaves the
  function with the socket as it is.\<close>

definition unguarded :: "(sock_op \<Rightarrow> exc option) \<Rightarrow> sock_op list \<Rightarrow> 'a sock_result \<Rightarrow> 'a sock_result" where
  "unguarded raises ops rest =
     (case first_raise raises ops of
        Some x \<Rightarrow> (Inl x, Some SockOpen)
      | None \<Rightarrow> rest)"

definition connect_unix :: "(sock_op \<Rightarrow> exc option) \<Rightarrow> sock_object sock_result" where
  "connect_unix raises =
     unguarded raises [SetBlocking]
       (try_or_close raises [BackendCall] UNIXSocketStream)"

text \<open>\<open>family\<close> is the family \<^verbatim>\<open>get_bind_address(interface)\<close> returned, \<open>win32\<close> is
  \<^verbatim>\<open>sys.platform == 'win32'\<close>.\<close>

definition create_tcp_server :: "int \<Rightarrow> bool \<Rightarrow> (sock_op \<Rightarrow> exc option) \<Rightarrow> sock_object sock_result" where
  "create_tcp_server family win32 raises =
     unguarded raises
       ([SetBlocking, SetNoDelay] @ (if family = AF_INET6 then [SetV6Only] else []))
       (try_or_close raises
          ([if win32 then SetExclusiveAddrUse else SetReuseAddr, Bind, Listen, BackendCall])
          TCPListener)"

text \<open>Python's truth value of an optional string: \<^verbatim>\<open>None\<close> and \<^verbatim>\<open>''\<close> are false.\<close>

definition truthy :: "string option \<Rightarrow> bool" where
  "truthy x = (x \<noteq> None \<and> x \<noteq> Some [])"

text \<open>\<^verbatim>\<open>'{!r}'.format(host)\<close> for a host name with no character that \<^verbatim>\<open>repr\<close> escapes.\<close>

definition py_repr :: "string \<Rightarrow> string" where
  "py_repr h = CHR 0x27 # h @ [CHR 0x27]"

text \<open>
  \<open>iface\<close> is the argument \<^verbatim>\<open>interface\<close>. \<open>bind_address\<close> is what \<^verbatim>\<open>get_bind_address(interface)\<close>
  returns (the interface name and the family) or raises, \<open>gai\<close> what
  \<^verbatim>\<open>getaddrinfo(target_host, target_port, family)\<close> returns or raises, and \<open>socket_raises family\<close> the
  exception of \<^verbatim>\<open>socket.socket(family=family, type=SOCK_DGRAM)\<close>, if it raises; each is read only
  where the source makes the call. Without an interface the family stays 0. An exception before
  the socket exists leaves the function with no socket.
\<close>

definition create_udp_socket ::
  "string option \<Rightarrow> nat option \<Rightarrow> string option \<Rightarrow> nat option \<Rightarrow>
   (exc + string \<times> int) \<Rightarrow> (exc + addrinfo list) \<Rightarrow> (int \<Rightarrow> exc option) \<Rightarrow>
   (sock_op \<Rightarrow> exc option) \<Rightarrow> sock_object sock_result" where
  "create_udp_socket iface port target_host target_port bind_address gai socket_raises raises =
     (case (if truthy iface
            then (case bind_address of
                    Inl x \<Rightarrow> Inl x
                  | Inr (name, family) \<Rightarrow> Inr (Some name, family))
            else Inr (None, 0)) of
        Inl x \<Rightarrow> (Inl x, None)
      | Inr (interface', family) \<Rightarrow>
          (case (if truthy target_host
                 then (case gai of
                         Inl x \<Rightarrow> Inl x
                       | Inr [] \<Rightarrow>
                           Inl (ValueError
                                  (py_repr (case target_host of Some t \<Rightarrow> t | None \<Rightarrow> []) @
                                   '' cannot be resolved to an IP address''))
                       | Inr ((af, rest, (h, p)) # res) \<Rightarrow> Inr (af, Some h, Some p))
                 else Inr (family, target_host, target_port)) of
             Inl x \<Rightarrow> (Inl x, None)
           | Inr (family', target_host', target_port') \<Rightarrow>
               (case socket_raises family' of
                  Some x \<Rightarrow> (Inl x, None)
                | None \<Rightarrow>
                    unguarded raises [SetBlocking]
                      (try_or_close raises
                         ((if interface' \<noteq> None \<or> port \<noteq> None then [Bind] else []) @
                          (if target_host' \<noteq> None \<and> target_port' \<noteq> None then [Connect] else []) @
                          [BackendCall])
                         UDPSocket))))"

section \<open>run: starting an event loop\<close>

text \<open>
  The state \<^verbatim>\<open>sniffio\<close> keeps for the calling thread: its thread-local name, the context variable
  \<^verbatim>\<open>current_async_library_cvar\<close>, and the library whose running loop \<^verbatim>\<open>sniffio\<close> detects by
  looking. \<^verbatim>\<open>sniffio\<close> is a library outside this repository;
  \<^verbatim>\<open>sniffio.current_async_library()\<close> is written after its documentation: it returns the
  thread-local name, else the value of the context variable, else the detected library, and
  raises \<^verbatim>\<open>AsyncLibraryNotFoundError\<close> (here \<open>None\<close>) when there is none.
\<close>

record sniffio =
  thread_local_name :: "string option"
  cvar :: "string option"
  running_loop :: "string option"

definition current_async_library :: "sniffio \<Rightarrow> string option" where
  "current_async_library sn =
     (case thread_local_name sn of
        Some n \<Rightarrow> Some n
      | None \<Rightarrow> (case cvar sn of Some n \<Rightarrow> Some n | None \<Rightarrow> running_loop sn))"

text \<open>
  \<^verbatim>\<open>run(func, *args, backend, backend_options)\<close>. \<open>import_module\<close> is Python's import of a module
  by name; \<open>asynclib_run m cv\<close> is \<^verbatim>\<open>asynclib.run(func, *args, **backend_options)\<close> of the imported
  module \<open>m\<close>, called while the context variable holds \<open>cv\<close>: what the coroutine function returns or
  raises, and the context variable afterwards. The result is what \<^verbatim>\<open>run\<close> returns or raises, the
  context variable when it does, and whether \<^verbatim>\<open>asynclib.run\<close> was called. A token of the context
  variable holds the value to restore.
\<close>

definition run ::
  "(string \<Rightarrow> exc + 'm) \<Rightarrow> ('m \<Rightarrow> string option \<Rightarrow> (exc + 'r) \<times> string option) \<Rightarrow>
   sniffio \<Rightarrow> string \<Rightarrow> (exc + 'r) \<times> string option \<times> bool" where
  "run import_module asynclib_run sn backend =
     (case current_async_library sn of
        Some asynclib_name \<Rightarrow>
          (Inl (RuntimeError (''Already running '' @ asynclib_name @ '' in this thread'')),
           cvar sn, False)
      | None \<Rightarrow>
          (case import_module (''anyio._backends._'' @ backend) of
             Inl x \<Rightarrow>
               (case x of
                  ImportError m \<Rightarrow>
                    (Inl (LookupError (''No such backend: '' @ backend) (Some x)), cvar sn, False)
                | _ \<Rightarrow> (Inl x, cvar sn, False))
           | Inr asynclib \<Rightarrow>
               (let token = (if cvar sn = None then Some (cvar sn) else None);
                    cv = (if cvar sn = None then Some backend else cvar sn);
                    r = asynclib_run asynclib cv
                in (fst r, (case token of Some old \<Rightarrow> old | None \<Rightarrow> snd r), True))))"

section \<open>fail_after and move_on_after\<close>

text \<open>The context managers of the backend: \<^verbatim>\<open>CancelScope(shield=shield)\<close>,
  \<^verbatim>\<open>fail_after(delay, shield=shield)\<close> and \<^verbatim>\<open>move_on_after(delay, shield=shield)\<close>.\<close>

datatype scope_cm =
    CancelScope bool
  | Backend_fail_after rat bool
  | Backend_move_on_after rat bool

definition fail_after :: "rat option \<Rightarrow> bool \<Rightarrow> scope_cm" where
  "fail_after delay shield =
     (case delay of None \<Rightarrow> CancelScope shield | Some d \<Rightarrow> Backend_fail_after d shield)"

definition move_on_after :: "rat option \<Rightarrow> bool \<Rightarrow> scope_cm" where
  "move_on_after delay shield =
     (case delay of None \<Rightarrow> CancelScope shield | Some d \<Rightarrow> Backend_move_on_after d shield)"

text \<open>
  Modelled from the spec: the backend's scopes are not among the sources. A scope has a deadline
  (a clock value or none) and a shielded flag; a plain \<^verbatim>\<open>CancelScope(shield=...)\<close> has no deadline,
  the two timed managers set it \<open>delay\<close> after the entry. When the deadline passes before the body
  is over the body is cancelled: \<^verbatim>\<open>fail_after\<close> then raises \<open>TimeoutError\<close>, \<^verbatim>\<open>move_on_after\<close> leaves
  the block.
\<close>

fun deadline :: "rat \<Rightarrow> scope_cm \<Rightarrow> rat option" where
  "deadline now (CancelScope sh) = None"
| "deadline now (Backend_fail_after d sh) = Some (now + d)"
| "deadline now (Backend_move_on_after d sh) = Some (now + d)"

fun shielded :: "scope_cm \<Rightarrow> bool" where
  "shielded (CancelScope sh) = sh"
| "shielded (Backend_fail_after d sh) = sh"
| "shielded (Backend_move_on_after d sh) = sh"

datatype block_result = Completed | Left_early | Raised exc

text \<open>A body entered at \<open>now\<close> that needs \<open>dur\<close> to complete, under the manager \<open>cm\<close>.\<close>

definition guarded_block :: "rat \<Rightarrow> scope_cm \<Rightarrow> rat \<Rightarrow> block_result" where
  "guarded_block now cm dur =
     (case deadline now cm of
        None \<Rightarrow> Completed
      | Some dl \<Rightarrow>
          if now + dur \<le> dl then Completed
          else (case cm of Backend_fail_after d sh \<Rightarrow> Raised TimeoutError | _ \<Rightarrow> Left_early))"

section \<open>run_process\<close>

definition PIPE :: int where "PIPE = -1"
definition STDOUT :: int where "STDOUT = -2"
definition DEVNULL :: int where "DEVNULL = -3"

text \<open>
  The process object of the backend: whether it has a standard input, the chunks its standard
  output and standard error streams yield (\<open>None\<close>: no such stream), and for every \<^verbatim>\<open>await\<close> on it
  the exception it raises, if any. \<open>p_returncode\<close> is \<^verbatim>\<open>process.returncode\<close> after the wait.
\<close>

record process =
  p_stdin :: bool
  p_stdout :: "string list option"
  p_stderr :: "string list option"
  p_stdout_raises :: "exc option"
  p_stderr_raises :: "exc option"
  p_send_raises :: "exc option"
  p_aclose_raises :: "exc option"
  p_wait_raises :: "exc option"
  p_returncode :: int

datatype completed_process = CompletedProcess command int "string option" "string option"

text \<open>\<^verbatim>\<open>drain_stream\<close> as a child task: the exception it ends with, or the joined chunks.\<close>

definition drain_stream :: "string list \<Rightarrow> exc option \<Rightarrow> exc + string" where
  "drain_stream chunks raises = (case raises of Some x \<Rightarrow> Inl x | None \<Rightarrow> Inr (concat chunks))"

text \<open>The body of the \<^verbatim>\<open>async with\<close>: send the input and close the standard input when there is
  one and \<^verbatim>\<open>input\<close> is true, then wait for the process.\<close>

definition feed_and_wait :: "process \<Rightarrow> string option \<Rightarrow> exc option" where
  "feed_and_wait process input =
     (let fed = (if p_stdin process \<and> truthy input
                 then (case p_send_raises process of Some x \<Rightarrow> Some x | None \<Rightarrow> p_aclose_raises process)
                 else None)
      in case fed of Some x \<Rightarrow> Some x | None \<Rightarrow> p_wait_raises process)"

text \<open>
  Modelled from the spec: the exit of the task group (the backend's \<^verbatim>\<open>TaskGroup\<close> is not among the
  sources): with no exception in the body or a child the block is left normally; one exception is
  re-raised as it is, several as one aggregate.
\<close>

definition raise_all :: "exc list \<Rightarrow> exc option" where
  "raise_all xs = (case xs of [] \<Rightarrow> None | [x] \<Rightarrow> Some x | _ \<Rightarrow> Some (ExceptionGroup xs))"

text \<open>The \<^verbatim>\<open>async with create_task_group()\<close> block of \<^verbatim>\<open>run_process\<close>: the exception that leaves it,
  or \<^verbatim>\<open>stream_contents\<close>.\<close>

definition streaming_block :: "process \<Rightarrow> string option \<Rightarrow> exc + (string option \<times> string option)" where
  "streaming_block process input =
     (let out = map_option (\<lambda>c. drain_stream c (p_stdout_raises process)) (p_stdout process);
          err = map_option (\<lambda>c. drain_stream c (p_stderr_raises process)) (p_stderr process);
          failed = (\<lambda>r. case r of Some (Inl x) \<Rightarrow> [x] | _ \<Rightarrow> []);
          content = (\<lambda>r. case r of Some (Inr b) \<Rightarrow> Some b | _ \<Rightarrow> None)
      in case raise_all (failed out @ failed err @
                         (case feed_and_wait process input of Some x \<Rightarrow> [x] | None \<Rightarrow> []))
         of Some x \<Rightarrow> Inl x
          | None \<Rightarrow> Inr (content out, content err))"

text \<open>
  \<^verbatim>\<open>run_process(command, input, stdout, stderr, check)\<close>; \<open>open_process\<close> is the backend's
  \<^verbatim>\<open>open_process(command, shell=..., stdin=..., stdout=..., stderr=...)\<close>. The result is what
  \<^verbatim>\<open>run_process\<close> returns or raises, and whether \<^verbatim>\<open>process.kill()\<close> was called.
\<close>

definition run_process ::
  "(command \<Rightarrow> bool \<Rightarrow> int \<Rightarrow> int \<Rightarrow> int \<Rightarrow> exc + process) \<Rightarrow>
   command \<Rightarrow> string option \<Rightarrow> int \<Rightarrow> int \<Rightarrow> bool \<Rightarrow> (exc + completed_process) \<times> bool" where
  "run_process open_process command input stdout stderr check =
     (case open_process command (case command of Shell c \<Rightarrow> True | Argv a \<Rightarrow> False)
             (if truthy input then PIPE else DEVNULL) stdout stderr of
        Inl x \<Rightarrow> (Inl x, False)
      | Inr process \<Rightarrow>
          (case streaming_block process input of
             Inl x \<Rightarrow> (Inl x, True)
           | Inr (output, errors) \<Rightarrow>
               if check \<and> p_returncode process \<noteq> 0
               then (Inl (CalledProcessError (p_returncode process) command output errors), False)
               else (Inr (CompletedProcess command (p_returncode process) output errors), False)))"

text \<open>No \<^verbatim>\<open>await\<close> of the block raises: neither the body nor the draining of a stream that exists.\<close>

definition clean :: "process \<Rightarrow> string option \<Rightarrow> bool" where
  "clean process input =
     (feed_and_wait process input = None \<and>
      (p_stdout process = None \<or> p_stdout_raises process = None) \<and>
      (p_stderr process = None \<or> p_stderr_raises process = None))"

text \<open>
  What holds of the launcher in every state a schedule reaches: the attempts spawned so far are
  the first candidates of the list, in its order; a wait is on the event of the attempt spawned
  last, under the delay of the call; an attempt that is over has set its event.
\<close>

fun waits_on :: "config \<Rightarrow> nat \<Rightarrow> launcher_pc \<Rightarrow> bool" where
  "waits_on cfg n (L_Wait k d) = (Suc k = n \<and> d = happy_eyeballs_delay cfg)"
| "waits_on cfg n p = True"

definition launch_inv :: "config \<Rightarrow> addrinfo list \<Rightarrow> race \<Rightarrow> bool" where
  "launch_inv cfg ta s =
     (length (attempts s) \<le> length ta \<and>
      map key (attempts s) = take (length (attempts s)) (map cand ta) \<and>
      waits_on cfg (length (attempts s)) (launcher s) \<and>
      list_all concluded_signalled (attempts s))"

section \<open>Concrete runs\<close>

text \<open>Two candidates of one host name, and the race at the point where both attempts are
  suspended in the backend's \<^verbatim>\<open>connect_tcp\<close>, the second started after the first one's wait timed
  out.\<close>

definition ipv6_candidate :: addrinfo where
  "ipv6_candidate = (AF_INET6, (1, 6, []), (''2001:db8::1'', 443))"

definition ipv4_candidate :: addrinfo where
  "ipv4_candidate = (AF_INET, (1, 6, []), (''192.0.2.1'', 443))"

definition both_connecting :: race where
  "both_connecting =
     exec default_config [ipv6_candidate, ipv4_candidate]
       [LStep, Begin 0 None no_raise, LWake TimedOut, LStep, Begin 1 None no_raise] init"

text \<open>A refused connection; schedules in which the only attempt is refused, in which both
  attempts are refused one after the other, in which the only attempt is cancelled, and in which
  both connects succeed, the second after the first has claimed the slot; and the race once the
  first attempt has been refused.\<close>

definition refused :: exc where
  "refused = OSError ''Connection refused'' None"

definition single_refused_run :: "choice list" where
  "single_refused_run =
     [LStep, Begin 0 None no_raise, ConnectDone 0 (Some refused), LWake Fired, LStep, LJoin]"

definition both_refused_run :: "choice list" where
  "both_refused_run =
     [LStep, Begin 0 None no_raise, ConnectDone 0 (Some refused), LWake Fired,
      LStep, Begin 1 None no_raise, ConnectDone 1 (Some refused), LWake Fired, LStep, LJoin]"

definition cancelled_run :: "choice list" where
  "cancelled_run =
     [LStep, Begin 0 None no_raise, ConnectDone 0 (Some CancelledError), LWake Fired, LStep, LJoin]"

definition late_success_run :: "choice list" where
  "late_success_run =
     [LStep, Begin 0 None no_raise, LWake TimedOut, LStep, Begin 1 None no_raise,
      ConnectDone 0 None, ConnectDone 1 None, CancelDone 0 None, LWake WaitCancelled, LJoin]"

definition first_refused :: race where
  "first_refused =
     exec default_config [ipv6_candidate, ipv4_candidate]
       [LStep, Begin 0 None no_raise, ConnectDone 0 (Some refused)] init"

text \<open>A failing socket option, threads with and without a running event loop, an installation
  with the asyncio backend only, and processes that exit with code 1.\<close>

definition invalid_argument :: exc where
  "invalid_argument = OSError ''Invalid argument'' None"

definition idle_thread :: sniffio where
  "idle_thread = \<lparr>thread_local_name = None, cvar = None, running_loop = None\<rparr>"

definition in_trio :: sniffio where
  "in_trio = \<lparr>thread_local_name = None, cvar = Some ''trio'', running_loop = None\<rparr>"

definition only_asyncio :: "string \<Rightarrow> exc + nat" where
  "only_asyncio name =
     (if name = ''anyio._backends._asyncio'' then Inr 0 else Inl (ImportError name))"

definition returns_42 :: "nat \<Rightarrow> string option \<Rightarrow> (exc + int) \<times> string option" where
  "returns_42 m cv = (Inr 42, Some ''left over'')"

definition exits_1 :: process where
  "exits_1 = \<lparr>p_stdin = False, p_stdout = Some [''ab'', ''c''], p_stderr = Some [],
     p_stdout_raises = None, p_stderr_raises = None, p_send_raises = None,
     p_aclose_raises = None, p_wait_raises = None, p_returncode = 1\<rparr>"

definition wait_cancelled :: process where
  "wait_cancelled = exits_1\<lparr>p_wait_raises := Some CancelledError\<rparr>"

definition cannot_open :: "command \<Rightarrow> bool \<Rightarrow> int \<Rightarrow> int \<Rightarrow> int \<Rightarrow> exc + process" where
  "cannot_open command shell stdin stdout stderr = Inl (OSError ''No such file or directory'' None)"

definition opens :: "process \<Rightarrow> command \<Rightarrow> bool \<Rightarrow> int \<Rightarrow> int \<Rightarrow> int \<Rightarrow> exc + process" where
  "opens p command shell stdin stdout stderr = Inr p"

section \<open>Properties of the race\<close>

subsection \<open>What a step leaves alone\<close>

lemma upd_attempt_fields [simp]:
  "stream (upd_attempt i f s) = stream s"
  "oserrors (upd_attempt i f s) = oserrors s"
  "cancel_called (upd_attempt i f s) = cancel_called s"
  "launcher (upd_attempt i f s) = launcher s"
  "body_exc (upd_attempt i f s) = body_exc s"
  "length (attempts (upd_attempt i f s)) = length (attempts s)"
  by (simp_all add: upd_attempt_def)

lemma finish_fields [simp]:
  "stream (finish i r s) = stream s"
  "oserrors (finish i r s) = oserrors s"
  "cancel_called (finish i r s) = cancel_called s"
  "launcher (finish i r s) = launcher s"
  "body_exc (finish i r s) = body_exc s"
  "length (attempts (finish i r s)) = length (attempts s)"
  by (simp_all add: finish_def)

lemma close_socket_fields [simp]:
  "stream (close_socket i s) = stream s"
  "oserrors (close_socket i s) = oserrors s"
  "cancel_called (close_socket i s) = cancel_called s"
  "launcher (close_socket i s) = launcher s"
  "body_exc (close_socket i s) = body_exc s"
  "length (attempts (close_socket i s)) = length (attempts s)"
  by (simp_all add: close_socket_def)

lemma handle_exc_fields [simp]:
  "stream (handle_exc i x s) = stream s"
  "cancel_called (handle_exc i x s) = cancel_called s"
  "launcher (handle_exc i x s) = launcher s"
  "body_exc (handle_exc i x s) = body_exc s"
  "length (attempts (handle_exc i x s)) = length (attempts s)"
  by (simp_all add: handle_exc_def)

subsection \<open>The winner slot\<close>

lemma step_keeps_winner:
  "stream s = Some r \<Longrightarrow> stream (step cfg ta c s) = Some r"
  by (cases c) (auto simp: Let_def split: launcher_pc.splits wakeup.splits option.splits)

lemma exec_keeps_winner:
  "stream s = Some r \<Longrightarrow> stream (exec cfg ta sched s) = Some r"
  by (induction sched arbitrary: s) (simp_all add: step_keeps_winner)

lemma step_claim:
  "stream s = None \<Longrightarrow> at_pc s i A_Connect \<Longrightarrow>
   stream (step cfg ta (ConnectDone i None) s) = Some (TCPSocketStream i) \<and>
   cancel_called (step cfg ta (ConnectDone i None) s)"
  by simp

lemma step_changes_stream:
  "stream (step cfg ta c s) \<noteq> stream s \<Longrightarrow>
   stream s = None \<and> (\<exists>i. c = ConnectDone i None \<and> at_pc s i A_Connect)"
  by (cases c) (auto simp: Let_def split: launcher_pc.splits wakeup.splits option.splits if_splits)

lemma claims_after_winner:
  "stream s = Some r \<Longrightarrow> claims cfg ta sched s = []"
  by (induction sched arbitrary: s) (simp_all add: step_keeps_winner)

lemma claims_at_most_one: "length (claims cfg ta sched s) \<le> 1"
proof (induction sched arbitrary: s)
  case Nil
  then show ?case by simp
next
  case (Cons c cs)
  show ?case
  proof (cases "stream (step cfg ta c s) = stream s")
    case True
    then show ?thesis using Cons.IH [of "step cfg ta c s"] by simp
  next
    case False
    then obtain r where "stream (step cfg ta c s) = Some r"
      using step_changes_stream [of cfg ta c s] by (cases "stream (step cfg ta c s)") auto
    then show ?thesis using False claims_after_winner by simp
  qed
qed

text \<open>
  C1: at most one attempt populates the winner slot. In every state, a connect that succeeds
  while the slot is empty stores its result there and cancels the scope of the task group; a
  stored winner stays the same under every schedule, whatever completes later; the slot changes
  only by such a success on an empty slot; and along every schedule from every state at most one
  choice changes the slot.
\<close>

theorem winner_slot_claimed_once:
  "(stream s = None \<and> at_pc s i A_Connect \<longrightarrow>
      stream (step cfg ta (ConnectDone i None) s) = Some (TCPSocketStream i) \<and>
      cancel_called (step cfg ta (ConnectDone i None) s)) \<and>
   (stream s = Some r \<longrightarrow> stream (exec cfg ta sched s) = Some r) \<and>
   (stream (step cfg ta c s) \<noteq> stream s \<longrightarrow>
      stream s = None \<and> (\<exists>j. c = ConnectDone j None \<and> at_pc s j A_Connect)) \<and>
   length (claims cfg ta sched s) \<le> 1"
  using step_claim [of s i cfg ta] exec_keeps_winner [of s r cfg ta sched]
    step_changes_stream [of cfg ta c s] claims_at_most_one [of cfg ta sched s]
  by blast

lemmas race_eval =
  init_def new_attempt_def at_pc_def upd_attempt_def handle_exc_def finish_def close_socket_def
  no_raise_def default_config_def ipv6_candidate_def ipv4_candidate_def AF_INET_def AF_INET6_def
  connect_tcp_def group_exit_def failures_def conclude_def

lemma both_connecting_eq:
  "both_connecting =
     \<lparr>stream = None, oserrors = [], cancel_called = False,
      attempts =
        [\<lparr>a_af = 10, a_sa = (''2001:db8::1'', 443), a_pc = A_Connect, a_socket = Some SockOpen,
          a_event = False, a_raised = None\<rparr>,
         \<lparr>a_af = 2, a_sa = (''192.0.2.1'', 443), a_pc = A_Connect, a_socket = Some SockOpen,
          a_event = False, a_raised = None\<rparr>],
      launcher = L_Wait 1 (1 / 4), body_exc = None\<rparr>"
  by (simp add: both_connecting_def race_eval)

theorem winner_slot_claimed_once_witness:
  "stream (step default_config [ipv6_candidate, ipv4_candidate] (ConnectDone 1 None) both_connecting)
     = Some (TCPSocketStream 1) \<and>
   cancel_called (step default_config [ipv6_candidate, ipv4_candidate] (ConnectDone 1 None) both_connecting) \<and>
   stream (exec default_config [ipv6_candidate, ipv4_candidate]
             [ConnectDone 0 None, CancelDone 1 None]
             (step default_config [ipv6_candidate, ipv4_candidate] (ConnectDone 1 None) both_connecting))
     = Some (TCPSocketStream 1) \<and>
   claims default_config [ipv6_candidate, ipv4_candidate]
     [ConnectDone 1 None, ConnectDone 0 None] both_connecting = [ConnectDone 1 None] \<and>
   stream both_connecting = None \<and>
   (\<exists>j. (ConnectDone 1 None :: choice) = ConnectDone j None \<and> at_pc both_connecting j A_Connect)"
proof -
  let ?ta = "[ipv6_candidate, ipv4_candidate]"
  let ?s1 = "step default_config ?ta (ConnectDone 1 None) both_connecting"
  have empty: "stream both_connecting = None \<and> at_pc both_connecting 1 A_Connect"
    by (simp add: both_connecting_eq at_pc_def)
  have claimed: "stream ?s1 = Some (TCPSocketStream 1) \<and> cancel_called ?s1"
    using winner_slot_claimed_once [of both_connecting 1 default_config ?ta] empty by blast
  have kept: "stream (exec default_config ?ta [ConnectDone 0 None, CancelDone 1 None] ?s1)
                = Some (TCPSocketStream 1)"
    using winner_slot_claimed_once [of ?s1 _ _ _ "TCPSocketStream 1"] claimed by blast
  have "claims default_config ?ta [ConnectDone 1 None, ConnectDone 0 None] both_connecting
          = [ConnectDone 1 None]"
    by (simp add: both_connecting_eq race_eval)
  moreover have "stream both_connecting = None \<and>
      (\<exists>j. (ConnectDone 1 None :: choice) = ConnectDone j None \<and> at_pc both_connecting j A_Connect)"
    using winner_slot_claimed_once [of both_connecting _ default_config ?ta _ _ "ConnectDone 1 None"]
      claimed empty
    by (metis option.distinct(1))
  ultimately show ?thesis using claimed kept by blast
qed

subsection \<open>The launcher\<close>

lemma map_key_upd:
  "(\<And>a. key (f a) = key a) \<Longrightarrow> map key (attempts (upd_attempt i f s)) = map key (attempts s)"
  by (cases "i < length (attempts s)")
     (auto simp: upd_attempt_def map_update list_eq_iff_nth_eq nth_list_update)

lemma list_all_upd:
  "list_all P (attempts s) \<Longrightarrow> (\<And>a. P a \<Longrightarrow> P (f a)) \<Longrightarrow>
   list_all P (attempts (upd_attempt i f s))"
  by (cases "i < length (attempts s)")
     (auto simp: upd_attempt_def list_all_length nth_list_update)

lemma key_new_attempt: "key (new_attempt ai) = cand ai"
  by (cases ai) (simp add: key_def cand_def new_attempt_def)

lemma keys_finish: "map key (attempts (finish i r s)) = map key (attempts s)"
  unfolding finish_def by (rule map_key_upd) (simp add: key_def)

lemma keys_close_socket: "map key (attempts (close_socket i s)) = map key (attempts s)"
  unfolding close_socket_def by (rule map_key_upd) (simp add: key_def)

lemma keys_handle_exc: "map key (attempts (handle_exc i x s)) = map key (attempts s)"
  by (simp add: handle_exc_def keys_finish keys_close_socket)

lemma keys_step_attempt:
  "c \<noteq> LStep \<Longrightarrow> map key (attempts (step cfg ta c s)) = map key (attempts s)"
  by (cases c)
     (auto simp: Let_def keys_finish keys_handle_exc map_key_upd key_def
           split: launcher_pc.splits wakeup.splits option.splits)

lemma signalled_finish:
  "list_all concluded_signalled (attempts s) \<Longrightarrow>
   list_all concluded_signalled (attempts (finish i r s))"
  unfolding finish_def by (rule list_all_upd) (simp_all add: concluded_signalled_def)

lemma signalled_close_socket:
  "list_all concluded_signalled (attempts s) \<Longrightarrow>
   list_all concluded_signalled (attempts (close_socket i s))"
  unfolding close_socket_def by (rule list_all_upd) (simp_all add: concluded_signalled_def)

lemma signalled_handle_exc:
  "list_all concluded_signalled (attempts s) \<Longrightarrow>
   list_all concluded_signalled (attempts (handle_exc i x s))"
  by (simp add: handle_exc_def signalled_finish signalled_close_socket)

lemma signalled_step:
  "list_all concluded_signalled (attempts s) \<Longrightarrow>
   list_all concluded_signalled (attempts (step cfg ta c s))"
  by (cases c)
     (auto simp: Let_def signalled_finish signalled_handle_exc concluded_signalled_def new_attempt_def
           intro!: list_all_upd signalled_handle_exc
           split: launcher_pc.splits wakeup.splits option.splits prod.splits)

lemma length_step_attempt:
  "c \<noteq> LStep \<Longrightarrow> length (attempts (step cfg ta c s)) = length (attempts s)"
  by (cases c) (auto simp: Let_def split: launcher_pc.splits wakeup.splits option.splits)

lemma launcher_step_attempt:
  "c \<noteq> LStep \<Longrightarrow> (\<forall>w. c \<noteq> LWake w) \<Longrightarrow> c \<noteq> LJoin \<Longrightarrow>
   launcher (step cfg ta c s) = launcher s"
  by (cases c) (auto simp: Let_def split: launcher_pc.splits wakeup.splits option.splits)

lemma launch_inv_init: "launch_inv cfg ta init"
  by (simp add: launch_inv_def init_def)

lemma signalled_new_attempt: "concluded_signalled (new_attempt ai)"
  by (cases ai) (simp add: concluded_signalled_def new_attempt_def)

lemma launch_inv_LStep:
  assumes "launch_inv cfg ta s"
  shows "launch_inv cfg ta (step cfg ta LStep s)"
proof (cases "launcher s = L_Loop \<and> length (attempts s) < length ta")
  case True
  then have "take (Suc (length (attempts s))) (map cand ta)
             = take (length (attempts s)) (map cand ta) @ [cand (ta ! length (attempts s))]"
    by (simp add: take_Suc_conv_app_nth)
  with True assms show ?thesis
    by (simp add: launch_inv_def key_new_attempt signalled_new_attempt)
next
  case False
  with assms show ?thesis
    by (auto simp: launch_inv_def split: launcher_pc.splits)
qed

lemma launch_inv_step:
  assumes "launch_inv cfg ta s"
  shows "launch_inv cfg ta (step cfg ta c s)"
proof (cases "c = LStep")
  case True
  show ?thesis unfolding True by (rule launch_inv_LStep [OF assms])
next
  case False
  have len: "length (attempts (step cfg ta c s)) = length (attempts s)"
    using False by (rule length_step_attempt)
  have keys: "map key (attempts (step cfg ta c s)) = map key (attempts s)"
    using False by (rule keys_step_attempt)
  have sig: "list_all concluded_signalled (attempts (step cfg ta c s))"
    using assms by (simp add: launch_inv_def signalled_step)
  have wait: "waits_on cfg (length (attempts s)) (launcher (step cfg ta c s))"
    using assms False
    by (cases c)
       (auto simp: launch_inv_def Let_def split: launcher_pc.splits wakeup.splits option.splits)
  from assms len keys sig wait show ?thesis
    by (simp add: launch_inv_def)
qed

lemma launch_inv_exec:
  "launch_inv cfg ta s \<Longrightarrow> launch_inv cfg ta (exec cfg ta sched s)"
  by (induction sched arbitrary: s) (simp_all add: launch_inv_step)

lemma spawn_only_at_loop:
  "length (attempts (step cfg ta c s)) \<noteq> length (attempts s) \<Longrightarrow>
   c = LStep \<and> launcher s = L_Loop \<and>
   attempts (step cfg ta c s) = attempts s @ [new_attempt (ta ! length (attempts s))] \<and>
   launcher (step cfg ta c s) = L_Wait (length (attempts s)) (happy_eyeballs_delay cfg)"
  using length_step_attempt [of c cfg ta s]
  by (cases "c = LStep") (auto split: if_splits)

lemma wait_ends:
  "launcher s = L_Wait k d \<Longrightarrow> launcher (step cfg ta c s) \<noteq> L_Wait k d \<Longrightarrow>
   (c = LWake TimedOut \<and> launcher (step cfg ta c s) = L_Loop) \<or>
   (c = LWake Fired \<and> a_event (attempts s ! k) \<and> launcher (step cfg ta c s) = L_Loop) \<or>
   (c = LWake WaitCancelled \<and> launcher (step cfg ta c s) = L_Join)"
  by (cases c) (auto simp: Let_def split: wakeup.splits option.splits if_splits)

lemma concluded_fires:
  assumes "launch_inv cfg ta s" "launcher s = L_Wait k d" "a_pc (attempts s ! k) = A_Done"
  shows "launcher (step cfg ta (LWake Fired) s) = L_Loop"
proof -
  from assms have "k < length (attempts s)" "list_all concluded_signalled (attempts s)"
    by (auto simp: launch_inv_def)
  then have "concluded_signalled (attempts s ! k)"
    by (simp add: list_all_length)
  with assms show ?thesis by (simp add: concluded_signalled_def)
qed

subsection \<open>Every attempt sets its event\<close>

lemma nth_upd_attempt_other:
  "j \<noteq> i \<Longrightarrow> attempts (upd_attempt j f s) ! i = attempts s ! i"
  by (simp add: upd_attempt_def)

lemma nth_finish_other: "j \<noteq> i \<Longrightarrow> attempts (finish j r s) ! i = attempts s ! i"
  by (simp add: finish_def nth_upd_attempt_other)

lemma nth_close_socket_other: "j \<noteq> i \<Longrightarrow> attempts (close_socket j s) ! i = attempts s ! i"
  by (simp add: close_socket_def nth_upd_attempt_other)

lemma nth_handle_exc_other: "j \<noteq> i \<Longrightarrow> attempts (handle_exc j x s) ! i = attempts s ! i"
  by (simp add: handle_exc_def nth_finish_other nth_close_socket_other upd_attempt_def)

lemma step_other_frame:
  assumes "i < length (attempts s)" and "attempt_of c \<noteq> Some i"
  shows "i < length (attempts (step cfg ta c s)) \<and> attempts (step cfg ta c s) ! i = attempts s ! i"
  using assms
  by (cases c)
     (auto simp: Let_def nth_append nth_upd_attempt_other nth_finish_other nth_handle_exc_other
           split: launcher_pc.splits wakeup.splits option.splits)

lemma exec_others_frame:
  "i < length (attempts s) \<Longrightarrow> others i sched \<Longrightarrow>
   i < length (attempts (exec cfg ta sched s)) \<and> attempts (exec cfg ta sched s) ! i = attempts s ! i"
proof (induction sched arbitrary: s)
  case Nil
  then show ?case by simp
next
  case (Cons c cs)
  from Cons.prems have c: "attempt_of c \<noteq> Some i" and cs: "others i cs"
    by (simp_all add: others_def)
  from step_other_frame [OF Cons.prems(1) c, of cfg ta]
  have "i < length (attempts (step cfg ta c s))"
    and same: "attempts (step cfg ta c s) ! i = attempts s ! i" by simp_all
  from Cons.IH [OF this(1) cs] same show ?case by simp
qed

lemma others_keep_pc:
  "at_pc s i p \<Longrightarrow> others i sched \<Longrightarrow> at_pc (exec cfg ta sched s) i p"
  using exec_others_frame [of i s sched cfg ta] by (simp add: at_pc_def)

lemma others_keep_concluded:
  "concluded s i \<Longrightarrow> others i sched \<Longrightarrow> concluded (exec cfg ta sched s) i"
  using exec_others_frame [of i s sched cfg ta] by (simp add: concluded_def at_pc_def)

lemma concluded_upd:
  "i < length (attempts s) \<Longrightarrow> a_pc (f (attempts s ! i)) = A_Done \<Longrightarrow> a_event (f (attempts s ! i)) \<Longrightarrow>
   concluded (upd_attempt i f s) i"
  by (simp add: concluded_def at_pc_def upd_attempt_def)

lemma concluded_finish: "i < length (attempts s) \<Longrightarrow> concluded (finish i r s) i"
  unfolding finish_def by (rule concluded_upd) simp_all

lemma concluded_handle_exc: "i < length (attempts s) \<Longrightarrow> concluded (handle_exc i x s) i"
  by (simp add: handle_exc_def concluded_finish)

lemma at_pc_upd:
  "i < length (attempts s) \<Longrightarrow> a_pc (f (attempts s ! i)) = p \<Longrightarrow> at_pc (upd_attempt i f s) i p"
  by (simp add: at_pc_def upd_attempt_def)

lemma begin_progress:
  assumes "at_pc s i A_Start"
  shows "concluded (step cfg ta (Begin i e raises) s) i \<or>
         at_pc (step cfg ta (Begin i e raises) s) i A_Connect"
proof -
  from assms have i: "i < length (attempts s)"
    by (simp add: at_pc_def)
  show ?thesis
  proof (cases e)
    case (Some m)
    have "concluded (upd_attempt i (\<lambda>a. a\<lparr>a_event := True, a_pc := A_Done\<rparr>)
                       (s\<lparr>oserrors := oserrors s @ [OSError m None]\<rparr>)) i"
      by (rule concluded_upd) (simp_all add: i)
    with assms Some show ?thesis by simp
  next
    case None
    let ?s1 = "upd_attempt i (\<lambda>a. a\<lparr>a_socket := Some SockOpen\<rparr>) s"
    let ?ops = "[SetBlocking, SetNoDelay] @
                (if interface cfg \<noteq> None \<and> bind_port cfg \<noteq> None then [Bind] else [])"
    have i1: "i < length (attempts ?s1)"
      by (simp add: i)
    have eq: "step cfg ta (Begin i e raises) s =
                (case first_raise raises ?ops of
                   Some x \<Rightarrow> handle_exc i x ?s1
                 | None \<Rightarrow> upd_attempt i (\<lambda>a. a\<lparr>a_pc := A_Connect\<rparr>) ?s1)"
      using assms None by (simp add: Let_def)
    show ?thesis
    proof (cases "first_raise raises ?ops")
      case (Some x)
      with eq concluded_handle_exc [OF i1, of x] show ?thesis by simp
    next
      case None
      have "at_pc (upd_attempt i (\<lambda>a. a\<lparr>a_pc := A_Connect\<rparr>) ?s1) i A_Connect"
        by (rule at_pc_upd) (simp_all add: i)
      with eq None show ?thesis by simp
    qed
  qed
qed

lemma connect_failure_concludes:
  "at_pc s i A_Connect \<Longrightarrow> concluded (step cfg ta (ConnectDone i (Some x)) s) i"
  by (simp add: concluded_handle_exc at_pc_def)

lemma connect_success_progress:
  "at_pc s i A_Connect \<Longrightarrow>
   concluded (step cfg ta (ConnectDone i None) s) i \<or> at_pc (step cfg ta (ConnectDone i None) s) i A_Cancel"
  by (auto simp: at_pc_def concluded_finish upd_attempt_def)

lemma connect_progress:
  "at_pc s i A_Connect \<Longrightarrow>
   concluded (step cfg ta (ConnectDone i r) s) i \<or> at_pc (step cfg ta (ConnectDone i r) s) i A_Cancel"
  using connect_failure_concludes connect_success_progress by (cases r) blast+

lemma cancel_concludes:
  "at_pc s i A_Cancel \<Longrightarrow> concluded (step cfg ta (CancelDone i r) s) i"
  by (cases r) (simp_all add: concluded_handle_exc concluded_finish at_pc_def)

lemma concluded_stays:
  "concluded s i \<Longrightarrow> attempt_of c = Some i \<Longrightarrow> step cfg ta c s = s"
  by (cases c) (auto simp: concluded_def at_pc_def)

lemma not_at_stays:
  "i < length (attempts s) \<Longrightarrow> a_pc (attempts s ! i) \<noteq> A_Start \<Longrightarrow>
     step cfg ta (Begin i e raises) s = s"
  "i < length (attempts s) \<Longrightarrow> a_pc (attempts s ! i) \<noteq> A_Connect \<Longrightarrow>
     step cfg ta (ConnectDone i r) s = s"
  "i < length (attempts s) \<Longrightarrow> a_pc (attempts s ! i) \<noteq> A_Cancel \<Longrightarrow>
     step cfg ta (CancelDone i r) s = s"
  by (simp_all add: at_pc_def)

lemma exec_append:
  "exec cfg ta (xs @ ys) s = exec cfg ta ys (exec cfg ta xs s)"
  by (induction xs arbitrary: s) simp_all

lemma pc_cases:
  "i < length (attempts s) \<Longrightarrow> concluded_signalled (attempts s ! i) \<Longrightarrow>
   at_pc s i A_Start \<or> at_pc s i A_Connect \<or> at_pc s i A_Cancel \<or> concluded s i"
  by (cases "a_pc (attempts s ! i)") (simp_all add: at_pc_def concluded_def concluded_signalled_def)

lemma attempt_concludes:
  assumes i: "i < length (attempts s)" and sig: "concluded_signalled (attempts s ! i)"
    and o1: "others i o1" and o2: "others i o2" and o3: "others i o3"
  shows "concluded
           (exec cfg ta (o1 @ [Begin i e raises] @ o2 @ [ConnectDone i r1] @ o3 @ [CancelDone i r2]) s) i"
proof -
  let ?s1 = "exec cfg ta o1 s"
  let ?s2 = "step cfg ta (Begin i e raises) ?s1"
  let ?s3 = "exec cfg ta o2 ?s2"
  let ?s4 = "step cfg ta (ConnectDone i r1) ?s3"
  let ?s5 = "exec cfg ta o3 ?s4"
  let ?s6 = "step cfg ta (CancelDone i r2) ?s5"
  have final: "exec cfg ta (o1 @ [Begin i e raises] @ o2 @ [ConnectDone i r1] @ o3 @ [CancelDone i r2]) s = ?s6"
    by (simp add: exec_append)
  have "at_pc s i A_Start \<or> at_pc s i A_Connect \<or> at_pc s i A_Cancel \<or> concluded s i"
    using i sig by (rule pc_cases)
  then have "at_pc ?s1 i A_Start \<or> at_pc ?s1 i A_Connect \<or> at_pc ?s1 i A_Cancel \<or> concluded ?s1 i"
    using others_keep_concluded [OF _ o1] others_keep_pc [OF _ o1] by blast
  moreover have "at_pc ?s1 i A_Start \<Longrightarrow> concluded ?s2 i \<or> at_pc ?s2 i A_Connect"
    by (rule begin_progress)
  moreover have "at_pc ?s1 i A_Connect \<Longrightarrow> ?s2 = ?s1" and "at_pc ?s1 i A_Cancel \<Longrightarrow> ?s2 = ?s1"
    by (rule not_at_stays; simp add: at_pc_def)+
  moreover have "concluded ?s1 i \<Longrightarrow> ?s2 = ?s1"
    by (rule concluded_stays) simp_all
  ultimately have "at_pc ?s2 i A_Connect \<or> at_pc ?s2 i A_Cancel \<or> concluded ?s2 i"
    by metis
  then have "at_pc ?s3 i A_Connect \<or> at_pc ?s3 i A_Cancel \<or> concluded ?s3 i"
    using others_keep_concluded [OF _ o2] others_keep_pc [OF _ o2] by blast
  moreover have "at_pc ?s3 i A_Connect \<Longrightarrow> concluded ?s4 i \<or> at_pc ?s4 i A_Cancel"
    by (rule connect_progress)
  moreover have "at_pc ?s3 i A_Cancel \<Longrightarrow> ?s4 = ?s3"
    by (rule not_at_stays; simp add: at_pc_def)
  moreover have "concluded ?s3 i \<Longrightarrow> ?s4 = ?s3"
    by (rule concluded_stays) simp_all
  ultimately have "at_pc ?s4 i A_Cancel \<or> concluded ?s4 i"
    by metis
  then have "at_pc ?s5 i A_Cancel \<or> concluded ?s5 i"
    using others_keep_concluded [OF _ o3] others_keep_pc [OF _ o3] by blast
  moreover have "concluded ?s5 i \<Longrightarrow> ?s6 = ?s5"
    by (rule concluded_stays) simp_all
  moreover have "at_pc ?s5 i A_Cancel \<Longrightarrow> concluded ?s6 i"
    by (rule cancel_concludes)
  ultimately have "concluded ?s6 i"
    by metis
  with final show ?thesis by simp
qed

lemma timeout_ends_wait:
  "launcher s = L_Wait k d \<Longrightarrow> launcher (step cfg ta (LWake TimedOut) s) = L_Loop"
  by simp

lemma event_ends_wait:
  "launcher s = L_Wait k d \<Longrightarrow> a_event (attempts s ! k) \<Longrightarrow>
   launcher (step cfg ta (LWake Fired) s) = L_Loop"
  by simp

lemma loop_spawns_next:
  "launcher s = L_Loop \<Longrightarrow> length (attempts s) < length ta \<Longrightarrow>
   attempts (step cfg ta LStep s) = attempts s @ [new_attempt (ta ! length (attempts s))] \<and>
   launcher (step cfg ta LStep s) = L_Wait (length (attempts s)) (happy_eyeballs_delay cfg)"
  by simp

text \<open>
  C5: the launcher spawns the attempts in the order of the candidate list, one at a time. Under
  every schedule: the attempts spawned so far are the first candidates in order; a new attempt is
  spawned only from the loop head, after which the launcher waits on the event of that attempt
  under \<^verbatim>\<open>move_on_after(happy_eyeballs_delay)\<close>; the wait ends by the timeout, by that event being
  set, or by cancellation, and by nothing else; the timeout always ends the wait, and so does the
  event once it is set, and from the loop head the next candidate, if any, is spawned. Every
  attempt sets its event: whatever the other tasks do in between and whatever the backend
  answers at the attempt's awaits (success, \<open>OSError\<close>, cancellation or any other exception), once
  these are answered the attempt is over with its event set; so every attempt that is over has
  set its event, and the wait on it can end at once. The default delay is 0.25 seconds.
\<close>

theorem staggered_launch:
  assumes "s = exec cfg ta sched init"
  shows
  "map key (attempts s) = take (length (attempts s)) (map cand ta) \<and>
   (\<forall>k d. launcher s = L_Wait k d \<longrightarrow>
      Suc k = length (attempts s) \<and> d = happy_eyeballs_delay cfg) \<and>
   (\<forall>c. length (attempts (step cfg ta c s)) \<noteq> length (attempts s) \<longrightarrow>
      c = LStep \<and> launcher s = L_Loop \<and>
      attempts (step cfg ta c s) = attempts s @ [new_attempt (ta ! length (attempts s))] \<and>
      launcher (step cfg ta c s) = L_Wait (length (attempts s)) (happy_eyeballs_delay cfg)) \<and>
   (\<forall>k d c. launcher s = L_Wait k d \<and> launcher (step cfg ta c s) \<noteq> L_Wait k d \<longrightarrow>
      (c = LWake TimedOut \<and> launcher (step cfg ta c s) = L_Loop) \<or>
      (c = LWake Fired \<and> a_event (attempts s ! k) \<and> launcher (step cfg ta c s) = L_Loop) \<or>
      (c = LWake WaitCancelled \<and> launcher (step cfg ta c s) = L_Join)) \<and>
   list_all concluded_signalled (attempts s) \<and>
   (\<forall>k d. launcher s = L_Wait k d \<and> a_pc (attempts s ! k) = A_Done \<longrightarrow>
      launcher (step cfg ta (LWake Fired) s) = L_Loop) \<and>
   (\<forall>k d. launcher s = L_Wait k d \<longrightarrow>
      launcher (step cfg ta (LWake TimedOut) s) = L_Loop) \<and>
   (\<forall>k d. launcher s = L_Wait k d \<and> a_event (attempts s ! k) \<longrightarrow>
      launcher (step cfg ta (LWake Fired) s) = L_Loop) \<and>
   (launcher s = L_Loop \<and> length (attempts s) < length ta \<longrightarrow>
      attempts (step cfg ta LStep s) = attempts s @ [new_attempt (ta ! length (attempts s))] \<and>
      launcher (step cfg ta LStep s) = L_Wait (length (attempts s)) (happy_eyeballs_delay cfg)) \<and>
   (\<forall>i e raises r1 r2 o1 o2 o3.
      i < length (attempts s) \<and> others i o1 \<and> others i o2 \<and> others i o3 \<longrightarrow>
      concluded
        (exec cfg ta
           (o1 @ [Begin i e raises] @ o2 @ [ConnectDone i r1] @ o3 @ [CancelDone i r2]) s) i) \<and>
   happy_eyeballs_delay default_config = 1 / 4"
proof -
  have inv: "launch_inv cfg ta s"
    unfolding assms by (rule launch_inv_exec [OF launch_inv_init])
  have order: "map key (attempts s) = take (length (attempts s)) (map cand ta)"
    and sig: "list_all concluded_signalled (attempts s)"
    using inv by (simp_all add: launch_inv_def)
  have waits: "\<forall>k d. launcher s = L_Wait k d \<longrightarrow>
      Suc k = length (attempts s) \<and> d = happy_eyeballs_delay cfg"
    using inv by (auto simp: launch_inv_def)
  have spawn: "\<forall>c. length (attempts (step cfg ta c s)) \<noteq> length (attempts s) \<longrightarrow>
      c = LStep \<and> launcher s = L_Loop \<and>
      attempts (step cfg ta c s) = attempts s @ [new_attempt (ta ! length (attempts s))] \<and>
      launcher (step cfg ta c s) = L_Wait (length (attempts s)) (happy_eyeballs_delay cfg)"
    using spawn_only_at_loop [of cfg ta _ s] by blast
  have ends: "\<forall>k d c. launcher s = L_Wait k d \<and> launcher (step cfg ta c s) \<noteq> L_Wait k d \<longrightarrow>
      (c = LWake TimedOut \<and> launcher (step cfg ta c s) = L_Loop) \<or>
      (c = LWake Fired \<and> a_event (attempts s ! k) \<and> launcher (step cfg ta c s) = L_Loop) \<or>
      (c = LWake WaitCancelled \<and> launcher (step cfg ta c s) = L_Join)"
    using wait_ends [of s _ _ cfg ta] by blast
  have fires: "\<forall>k d. launcher s = L_Wait k d \<and> a_pc (attempts s ! k) = A_Done \<longrightarrow>
      launcher (step cfg ta (LWake Fired) s) = L_Loop"
    using concluded_fires [OF inv] by blast
  have dflt: "happy_eyeballs_delay default_config = 1 / 4"
    by (simp add: default_config_def)
  have timeout: "\<forall>k d. launcher s = L_Wait k d \<longrightarrow>
      launcher (step cfg ta (LWake TimedOut) s) = L_Loop"
    using timeout_ends_wait [of s _ _ cfg ta] by blast
  have event: "\<forall>k d. launcher s = L_Wait k d \<and> a_event (attempts s ! k) \<longrightarrow>
      launcher (step cfg ta (LWake Fired) s) = L_Loop"
    using event_ends_wait [of s _ _ cfg ta] by blast
  have next_one: "launcher s = L_Loop \<and> length (attempts s) < length ta \<longrightarrow>
      attempts (step cfg ta LStep s) = attempts s @ [new_attempt (ta ! length (attempts s))] \<and>
      launcher (step cfg ta LStep s) = L_Wait (length (attempts s)) (happy_eyeballs_delay cfg)"
    using loop_spawns_next [of s ta cfg] by blast
  have progress: "\<forall>i e raises r1 r2 o1 o2 o3.
      i < length (attempts s) \<and> others i o1 \<and> others i o2 \<and> others i o3 \<longrightarrow>
      concluded
        (exec cfg ta
           (o1 @ [Begin i e raises] @ o2 @ [ConnectDone i r1] @ o3 @ [CancelDone i r2]) s) i"
  proof (intro allI impI)
    fix i e raises r1 r2 o1 o2 o3
    assume h: "i < length (attempts s) \<and> others i o1 \<and> others i o2 \<and> others i o3"
    then have "concluded_signalled (attempts s ! i)"
      using sig by (simp add: list_all_length)
    with h show "concluded
        (exec cfg ta
           (o1 @ [Begin i e raises] @ o2 @ [ConnectDone i r1] @ o3 @ [CancelDone i r2]) s) i"
      by (simp only: attempt_concludes)
  qed
  show ?thesis
    by (intro conjI order waits spawn ends sig fires timeout event next_one progress dflt)
qed


theorem staggered_launch_witness:
  "launcher first_refused = L_Wait 0 (1 / 4) \<and>
   map key (attempts first_refused) = [cand ipv6_candidate] \<and>
   list_all concluded_signalled (attempts first_refused) \<and>
   launcher (step default_config [ipv6_candidate, ipv4_candidate] (LWake Fired) first_refused) = L_Loop \<and>
   attempts (step default_config [ipv6_candidate, ipv4_candidate] LStep init)
     = [new_attempt ipv6_candidate] \<and>
   launcher (step default_config [ipv6_candidate, ipv4_candidate] LStep init) = L_Wait 0 (1 / 4) \<and>
   a_event (attempts first_refused ! 0) \<and>
   launcher (step default_config [ipv6_candidate, ipv4_candidate] (LWake TimedOut) first_refused) = L_Loop \<and>
   attempts (exec default_config [ipv6_candidate, ipv4_candidate] [LWake TimedOut, LStep] first_refused)
     = attempts first_refused @ [new_attempt ipv4_candidate] \<and>
   launcher (exec default_config [ipv6_candidate, ipv4_candidate] [LWake TimedOut, LStep] first_refused)
     = L_Wait 1 (1 / 4) \<and>
   concluded
     (exec default_config [ipv6_candidate, ipv4_candidate]
        ([] @ [Begin 0 None no_raise] @ [LWake TimedOut, LStep] @
         [ConnectDone 0 (Some CancelledError)] @ [] @ [CancelDone 0 None])
        (exec default_config [ipv6_candidate, ipv4_candidate] [LStep] init)) 0"
proof -
  let ?ta = "[ipv6_candidate, ipv4_candidate]"
  have w: "launcher first_refused = L_Wait 0 (1 / 4)"
    and d: "a_pc (attempts first_refused ! 0) = A_Done"
    and n: "length (attempts first_refused) = 1"
    by (simp_all add: first_refused_def refused_def race_eval)
  note launch = staggered_launch [OF first_refused_def]
  have "map key (attempts first_refused)
          = take (length (attempts first_refused)) (map cand ?ta)"
    using launch by blast
  then have order: "map key (attempts first_refused) = [cand ipv6_candidate]"
    by (simp add: n)
  have sig: "list_all concluded_signalled (attempts first_refused)"
    using launch by blast
  have fired: "launcher (step default_config ?ta (LWake Fired) first_refused) = L_Loop"
    using launch w d by blast
  have start: "init = exec default_config ?ta [] init"
    by simp
  have "length (attempts (step default_config ?ta LStep init)) \<noteq> length (attempts init)"
    by (simp add: race_eval)
  then have "attempts (step default_config ?ta LStep init)
               = attempts init @ [new_attempt (?ta ! length (attempts init))] \<and>
             launcher (step default_config ?ta LStep init)
               = L_Wait (length (attempts init)) (happy_eyeballs_delay default_config)"
    using staggered_launch [OF start] by blast
  then have spawned: "attempts (step default_config ?ta LStep init) = [new_attempt ipv6_candidate] \<and>
      launcher (step default_config ?ta LStep init) = L_Wait 0 (1 / 4)"
    by (simp add: init_def default_config_def)
  have "launcher (step default_config ?ta (LWake Fired) first_refused) \<noteq> L_Wait 0 (1 / 4)"
    using fired by simp
  then have "a_event (attempts first_refused ! 0)"
    using launch w by blast
  then have ev: "a_event (attempts first_refused ! 0)" .
  have timed: "launcher (step default_config ?ta (LWake TimedOut) first_refused) = L_Loop"
    using launch w by blast
  let ?t = "exec default_config ?ta
              [LStep, Begin 0 None no_raise, ConnectDone 0 (Some refused), LWake TimedOut] init"
  have t: "?t = step default_config ?ta (LWake TimedOut) first_refused"
    by (simp add: first_refused_def)
  have "launcher ?t = L_Loop \<and> length (attempts ?t) < length ?ta"
    using timed t by (simp add: first_refused_def refused_def race_eval)
  then have "attempts (step default_config ?ta LStep ?t)
               = attempts ?t @ [new_attempt (?ta ! length (attempts ?t))] \<and>
             launcher (step default_config ?ta LStep ?t)
               = L_Wait (length (attempts ?t)) (happy_eyeballs_delay default_config)"
    using staggered_launch [OF refl, of default_config ?ta
        "[LStep, Begin 0 None no_raise, ConnectDone 0 (Some refused), LWake TimedOut]"]
    by blast
  then have nxt: "attempts (exec default_config ?ta [LWake TimedOut, LStep] first_refused)
                    = attempts first_refused @ [new_attempt ipv4_candidate] \<and>
                  launcher (exec default_config ?ta [LWake TimedOut, LStep] first_refused)
                    = L_Wait 1 (1 / 4)"
    by (simp add: first_refused_def refused_def race_eval)
  let ?s0 = "exec default_config ?ta [LStep] init"
  have "0 < length (attempts ?s0) \<and> others 0 [] \<and> others 0 [LWake TimedOut, LStep] \<and> others 0 []"
    by (simp add: others_def race_eval)
  then have prog: "concluded
     (exec default_config ?ta
        ([] @ [Begin 0 None no_raise] @ [LWake TimedOut, LStep] @
         [ConnectDone 0 (Some CancelledError)] @ [] @ [CancelDone 0 None]) ?s0) 0"
    using staggered_launch [OF refl, of default_config ?ta "[LStep]"]
    by blast
  from w order sig fired spawned ev timed nxt prog show ?thesis by blast
qed

subsection \<open>The recorded errors\<close>

lemma recorded_handle_exc:
  "list_all is_OSError (oserrors s) \<Longrightarrow> list_all is_OSError (oserrors (handle_exc i x s))"
  by (simp add: handle_exc_def)

lemma recorded_step:
  "list_all is_OSError (oserrors s) \<Longrightarrow> list_all is_OSError (oserrors (step cfg ta c s))"
  by (cases c)
     (auto simp: Let_def recorded_handle_exc split: launcher_pc.splits wakeup.splits option.splits)

lemma recorded_exec:
  "list_all is_OSError (oserrors s) \<Longrightarrow> list_all is_OSError (oserrors (exec cfg ta sched s))"
  by (induction sched arbitrary: s) (simp_all add: recorded_step)

text \<open>
  C2, as stated, fails: with the one candidate's connect refused, exactly one error is recorded
  and no attempt succeeds, yet what \<^verbatim>\<open>connect_tcp\<close> raises is not that error but a new
  \<open>OSError\<close> that has it as its cause.
\<close>

theorem single_error_is_the_cause_counterexample:
  "stream (exec default_config [ipv4_candidate] single_refused_run init) = None \<and>
   oserrors (exec default_config [ipv4_candidate] single_refused_run init) = [refused] \<and>
   connect_tcp default_config [ipv4_candidate] single_refused_run
     = Some (Inl (OSError ''All connection attempts failed'' (Some refused))) \<and>
   connect_tcp default_config [ipv4_candidate] single_refused_run \<noteq> Some (Inl refused)"
  by (simp add: race_eval refused_def single_refused_run_def)

text \<open>
  C2, amended: whenever the task group is left without raising and without a winner,
  \<^verbatim>\<open>connect_tcp\<close> raises a new \<open>OSError('All connection attempts failed')\<close>, however many errors were
  recorded; its cause is the recorded error itself, with no aggregate around it, when exactly one
  error was recorded, and the aggregate of all recorded errors otherwise, so when two or more
  were; every recorded error is an \<open>OSError\<close>.
\<close>

theorem all_failed_raises_oserror_from_cause:
  assumes "s = exec cfg ta sched init"
    and "launcher s = L_Done" and "group_exit s = None" and "stream s = None"
  shows
  "connect_tcp cfg ta sched
     = Some (Inl (OSError ''All connection attempts failed''
                    (Some (if length (oserrors s) = 1 then oserrors s ! 0
                           else ExceptionGroup (oserrors s))))) \<and>
   list_all is_OSError (oserrors s) \<and>
   (length (oserrors s) = 1 \<longrightarrow>
      connect_tcp cfg ta sched
        = Some (Inl (OSError ''All connection attempts failed'' (Some (oserrors s ! 0))))) \<and>
   (2 \<le> length (oserrors s) \<longrightarrow>
      connect_tcp cfg ta sched
        = Some (Inl (OSError ''All connection attempts failed''
                       (Some (ExceptionGroup (oserrors s))))))"
proof -
  have "list_all is_OSError (oserrors init)"
    by (simp add: init_def)
  then have rec: "list_all is_OSError (oserrors s)"
    unfolding assms(1) by (rule recorded_exec)
  have out: "connect_tcp cfg ta sched = Some (conclude s)"
    using assms by (simp add: connect_tcp_def)
  have any: "conclude s = Inl (OSError ''All connection attempts failed''
                    (Some (if length (oserrors s) = 1 then oserrors s ! 0
                           else ExceptionGroup (oserrors s))))"
    using assms(4) by (simp add: conclude_def)
  from rec out any show ?thesis by simp
qed

theorem all_failed_raises_oserror_from_cause_witness:
  "connect_tcp default_config [ipv4_candidate] single_refused_run
     = Some (Inl (OSError ''All connection attempts failed'' (Some refused))) \<and>
   connect_tcp default_config [ipv6_candidate, ipv4_candidate] both_refused_run
     = Some (Inl (OSError ''All connection attempts failed''
                    (Some (ExceptionGroup [refused, refused])))) \<and>
   connect_tcp default_config [ipv4_candidate] cancelled_run
     = Some (Inl (OSError ''All connection attempts failed'' (Some (ExceptionGroup []))))"
proof -
  let ?s1 = "exec default_config [ipv4_candidate] single_refused_run init"
  let ?s2 = "exec default_config [ipv6_candidate, ipv4_candidate] both_refused_run init"
  let ?s3 = "exec default_config [ipv4_candidate] cancelled_run init"
  have s1: "launcher ?s1 = L_Done" "group_exit ?s1 = None" "stream ?s1 = None"
    "oserrors ?s1 = [refused]"
    by (simp_all add: race_eval refused_def single_refused_run_def both_refused_run_def)
  have s2: "launcher ?s2 = L_Done" "group_exit ?s2 = None" "stream ?s2 = None"
    "oserrors ?s2 = [refused, refused]"
    by (simp_all add: race_eval refused_def single_refused_run_def both_refused_run_def)
  have s3: "launcher ?s3 = L_Done" "group_exit ?s3 = None" "stream ?s3 = None"
    "oserrors ?s3 = []"
    by (simp_all add: race_eval cancelled_run_def)
  have one: "connect_tcp default_config [ipv4_candidate] single_refused_run
     = Some (Inl (OSError ''All connection attempts failed'' (Some refused)))"
    using all_failed_raises_oserror_from_cause [OF refl s1(1) s1(2) s1(3)] s1(4) by simp
  have two: "connect_tcp default_config [ipv6_candidate, ipv4_candidate] both_refused_run
     = Some (Inl (OSError ''All connection attempts failed''
                    (Some (ExceptionGroup [refused, refused]))))"
    using all_failed_raises_oserror_from_cause [OF refl s2(1) s2(2) s2(3)] s2(4) by simp
  have none: "connect_tcp default_config [ipv4_candidate] cancelled_run
     = Some (Inl (OSError ''All connection attempts failed'' (Some (ExceptionGroup []))))"
    using all_failed_raises_oserror_from_cause [OF refl s3(1) s3(2) s3(3)] s3(4) by simp
  from one two none show ?thesis by blast
qed

subsection \<open>No candidates\<close>















subsection \<open>Order of the attempts, sockets of the losers\<close>

text \<open>
  C3 at the candidate list \<open>[IPv4, IPv6]\<close>: the list is used as \<^verbatim>\<open>getaddrinfo\<close> returned it, so the
  first attempt spawned is the IPv4 one and the IPv6 one follows.
\<close>

theorem ipv4_attempted_first:
  "attempts (step default_config [ipv4_candidate, ipv6_candidate] LStep init)
     = [new_attempt ipv4_candidate] \<and>
   map a_af (attempts (exec default_config [ipv4_candidate, ipv6_candidate]
                         [LStep, Begin 0 None no_raise, LWake TimedOut, LStep] init))
     = [AF_INET, AF_INET6]"
  by (simp add: race_eval)

lemma failed_attempt_closes_socket:
  "i < length (attempts s) \<Longrightarrow>
   a_socket (attempts (handle_exc i x s) ! i) = Some SockClosed \<and>
   a_pc (attempts (handle_exc i x s) ! i) = A_Done"
  by (simp add: handle_exc_def finish_def close_socket_def upd_attempt_def)

text \<open>
  C6 where both connects succeed, the second after the first has claimed the slot: the race
  returns the first stream, the second attempt is over, and its socket is still open.
\<close>

theorem late_success_leaves_socket_open:
  "connect_tcp default_config [ipv6_candidate, ipv4_candidate] late_success_run
     = Some (Inr (TCPSocketStream 0)) \<and>
   map a_pc (attempts (exec default_config [ipv6_candidate, ipv4_candidate] late_success_run init))
     = [A_Done, A_Done] \<and>
   map a_socket (attempts (exec default_config [ipv6_candidate, ipv4_candidate] late_success_run init))
     = [Some SockOpen, Some SockOpen]"
  by (simp add: race_eval late_success_run_def)

section \<open>Properties of the socket constructors\<close>

text \<open>
  C7 where \<^verbatim>\<open>setsockopt(IPPROTO_IPV6, IPV6_V6ONLY, v6only)\<close> raises in \<^verbatim>\<open>create_tcp_server\<close>: the call
  stands before the \<^verbatim>\<open>try\<close>, so the exception leaves the function with the socket open, whereas
  the same exception from \<^verbatim>\<open>setsockopt(SOL_SOCKET, SO_REUSEADDR, 1)\<close>, inside the \<^verbatim>\<open>try\<close>, closes
  it; \<^verbatim>\<open>setblocking(False)\<close> stands before the \<^verbatim>\<open>try\<close> in \<^verbatim>\<open>connect_unix\<close> and
  \<^verbatim>\<open>create_udp_socket\<close> as well.
\<close>

theorem v6only_failure_leaves_socket_open:
  "create_tcp_server AF_INET6 False (no_raise(SetV6Only := Some invalid_argument))
     = (Inl invalid_argument, Some SockOpen) \<and>
   create_tcp_server AF_INET6 False (no_raise(SetReuseAddr := Some invalid_argument))
     = (Inl invalid_argument, Some SockClosed) \<and>
   connect_unix (no_raise(SetBlocking := Some invalid_argument))
     = (Inl invalid_argument, Some SockOpen)"
  by (simp add: create_tcp_server_def connect_unix_def unguarded_def try_or_close_def
        no_raise_def AF_INET6_def)

lemma udp_setblocking_failure_leaves_socket_open:
  "create_udp_socket (Some ''127.0.0.1'') (Some 53) None None (Inr (''127.0.0.1'', AF_INET)) (Inr [])
     (\<lambda>family. None) (no_raise(SetBlocking := Some invalid_argument))
     = (Inl invalid_argument, Some SockOpen)"
  by (simp add: create_udp_socket_def unguarded_def try_or_close_def no_raise_def truthy_def)

lemma udp_bind_failure_closes_socket:
  "create_udp_socket (Some ''127.0.0.1'') (Some 53) None None (Inr (''127.0.0.1'', AF_INET)) (Inr [])
     (\<lambda>family. None) (no_raise(Bind := Some invalid_argument))
     = (Inl invalid_argument, Some SockClosed)"
  by (simp add: create_udp_socket_def unguarded_def try_or_close_def no_raise_def truthy_def)

lemma udp_unresolved_target_has_no_socket:
  "create_udp_socket None None (Some ''nowhere'') (Some 53) (Inr ([], 0)) (Inr [])
     (\<lambda>family. None) no_raise
     = (Inl (ValueError (py_repr ''nowhere'' @ '' cannot be resolved to an IP address'')), None)"
  by (simp add: create_udp_socket_def truthy_def)

lemma udp_socket_failure_has_no_socket:
  "create_udp_socket None None None None (Inr ([], 0)) (Inr [])
     (\<lambda>family. if family = 0 then Some invalid_argument else None) no_raise
     = (Inl invalid_argument, None)"
  by (simp add: create_udp_socket_def truthy_def)

section \<open>Properties of run\<close>

text \<open>
  C8: \<^verbatim>\<open>run\<close> raises \<open>RuntimeError\<close> whenever the thread already runs an event loop, without
  calling the backend's \<^verbatim>\<open>run\<close>; failing that, it raises \<open>LookupError\<close> whenever the import of the
  backend module raises \<open>ImportError\<close>, again without calling the backend; otherwise it calls the
  backend's \<^verbatim>\<open>run\<close> and returns what the coroutine function returns (or raises what it raises).
  On every path the context variable ends with the value it had at the call.
\<close>

theorem run_outcomes:
  "(current_async_library sn = Some name \<longrightarrow>
      run import_module asynclib_run sn backend
        = (Inl (RuntimeError (''Already running '' @ name @ '' in this thread'')), cvar sn, False)) \<and>
   (current_async_library sn = None \<and>
    import_module (''anyio._backends._'' @ backend) = Inl (ImportError m) \<longrightarrow>
      run import_module asynclib_run sn backend
        = (Inl (LookupError (''No such backend: '' @ backend) (Some (ImportError m))), cvar sn, False)) \<and>
   (current_async_library sn = None \<and>
    import_module (''anyio._backends._'' @ backend) = Inr asynclib \<longrightarrow>
      fst (run import_module asynclib_run sn backend) = fst (asynclib_run asynclib (Some backend)) \<and>
      snd (snd (run import_module asynclib_run sn backend))) \<and>
   fst (snd (run import_module asynclib_run sn backend)) = cvar sn"
proof -
  have unset: "current_async_library sn = None \<Longrightarrow> cvar sn = None"
    by (auto simp: current_async_library_def split: option.splits)
  have running: "current_async_library sn = Some name \<longrightarrow>
      run import_module asynclib_run sn backend
        = (Inl (RuntimeError (''Already running '' @ name @ '' in this thread'')), cvar sn, False)"
    by (simp add: run_def)
  have missing: "current_async_library sn = None \<and>
    import_module (''anyio._backends._'' @ backend) = Inl (ImportError m) \<longrightarrow>
      run import_module asynclib_run sn backend
        = (Inl (LookupError (''No such backend: '' @ backend) (Some (ImportError m))), cvar sn, False)"
    by (simp add: run_def)
  have started: "current_async_library sn = None \<and>
    import_module (''anyio._backends._'' @ backend) = Inr asynclib \<longrightarrow>
      fst (run import_module asynclib_run sn backend) = fst (asynclib_run asynclib (Some backend)) \<and>
      snd (snd (run import_module asynclib_run sn backend))"
    using unset by (simp add: run_def Let_def)
  have restored: "fst (snd (run import_module asynclib_run sn backend)) = cvar sn"
  proof (cases "current_async_library sn")
    case None
    with unset show ?thesis
      by (simp add: run_def Let_def split: sum.splits exc.splits)
  next
    case (Some n)
    then show ?thesis by (simp add: run_def)
  qed
  from running missing started restored show ?thesis by blast
qed

theorem run_outcomes_witness:
  "run only_asyncio returns_42 in_trio ''asyncio''
     = (Inl (RuntimeError ''Already running trio in this thread''), Some ''trio'', False) \<and>
   run only_asyncio returns_42 idle_thread ''curio''
     = (Inl (LookupError ''No such backend: curio'' (Some (ImportError ''anyio._backends._curio''))),
        None, False) \<and>
   run only_asyncio returns_42 idle_thread ''asyncio'' = (Inr 42, None, True)"
proof -
  have a: "current_async_library in_trio = Some ''trio''"
    and b: "current_async_library idle_thread = None"
    and c: "only_asyncio (''anyio._backends._'' @ ''curio'') = Inl (ImportError ''anyio._backends._curio'')"
    and d: "only_asyncio (''anyio._backends._'' @ ''asyncio'') = Inr 0"
    by (simp_all add: current_async_library_def in_trio_def idle_thread_def only_asyncio_def)
  have 1: "run only_asyncio returns_42 in_trio ''asyncio''
     = (Inl (RuntimeError ''Already running trio in this thread''), Some ''trio'', False)"
    using run_outcomes [where sn = in_trio and name = "''trio''" and import_module = only_asyncio
        and asynclib_run = returns_42 and backend = "''asyncio''"] a
    by (simp add: in_trio_def)
  have 2: "run only_asyncio returns_42 idle_thread ''curio''
     = (Inl (LookupError ''No such backend: curio'' (Some (ImportError ''anyio._backends._curio''))),
        None, False)"
    using run_outcomes [where sn = idle_thread and import_module = only_asyncio
        and asynclib_run = returns_42 and backend = "''curio''" and m = "''anyio._backends._curio''"] b c
    by (simp add: idle_thread_def)
  have 3: "run only_asyncio returns_42 idle_thread ''asyncio'' = (Inr 42, None, True)"
    using run_outcomes [where sn = idle_thread and import_module = only_asyncio
        and asynclib_run = returns_42 and backend = "''asyncio''" and asynclib = 0] b d
    by (cases "run only_asyncio returns_42 idle_thread ''asyncio''")
       (simp add: idle_thread_def returns_42_def)
  from 1 2 3 show ?thesis by blast
qed

section \<open>Properties of fail_after and move_on_after\<close>

text \<open>
  C9: with \<^verbatim>\<open>delay = None\<close> both \<^verbatim>\<open>fail_after\<close> and \<^verbatim>\<open>move_on_after\<close> return the plain cancel scope
  with the given shield flag; it has no deadline, so a block under it runs to completion however
  long it takes, and \<^verbatim>\<open>fail_after(None)\<close> never raises \<open>TimeoutError\<close>.
\<close>

theorem no_delay_is_plain_scope:
  "fail_after None shield = CancelScope shield \<and>
   move_on_after None shield = CancelScope shield \<and>
   shielded (fail_after None shield) = shield \<and>
   shielded (move_on_after None shield) = shield \<and>
   deadline now (fail_after None shield) = None \<and>
   deadline now (move_on_after None shield) = None \<and>
   guarded_block now (fail_after None shield) dur = Completed \<and>
   guarded_block now (move_on_after None shield) dur = Completed \<and>
   guarded_block now (fail_after None shield) dur \<noteq> Raised TimeoutError"
  by (simp add: fail_after_def move_on_after_def guarded_block_def)

section \<open>Properties of run_process\<close>

lemma streaming_block_clean:
  "clean process input \<Longrightarrow>
   streaming_block process input
     = Inr (map_option concat (p_stdout process), map_option concat (p_stderr process))"
  by (cases "p_stdout process"; cases "p_stderr process")
     (auto simp: clean_def streaming_block_def raise_all_def drain_stream_def Let_def)

lemma raise_all_nonempty: "xs \<noteq> [] \<Longrightarrow> \<exists>x. raise_all xs = Some x"
  by (cases xs rule: list.exhaust; simp add: raise_all_def split: list.splits)

lemma streaming_block_raises:
  assumes "\<not> clean process input"
  shows "\<exists>x. streaming_block process input = Inl x"
proof -
  let ?out = "map_option (\<lambda>c. drain_stream c (p_stdout_raises process)) (p_stdout process)"
  let ?err = "map_option (\<lambda>c. drain_stream c (p_stderr_raises process)) (p_stderr process)"
  let ?failed = "\<lambda>r. case r of Some (Inl x) \<Rightarrow> [x] | _ \<Rightarrow> []"
  let ?all = "?failed ?out @ ?failed ?err @
              (case feed_and_wait process input of Some x \<Rightarrow> [x] | None \<Rightarrow> [])"
  from assms have "?all \<noteq> []"
    by (cases "p_stdout process"; cases "p_stderr process"; cases "feed_and_wait process input";
        cases "p_stdout_raises process"; cases "p_stderr_raises process")
       (simp_all add: clean_def drain_stream_def)
  then obtain x where "raise_all ?all = Some x"
    using raise_all_nonempty by blast
  then show ?thesis
    by (simp add: streaming_block_def Let_def)
qed

text \<open>
  C10: when the process cannot be opened its exception is raised and nothing is killed. Once it
  is open: if any \<^verbatim>\<open>await\<close> of the streaming and wait block raises (cancellation included), the
  process is killed and the exception that left the block is raised; after a clean block nothing
  is killed, \<open>CalledProcessError\<close> is raised exactly when \<open>check\<close> is true and the return code is
  not 0, and otherwise a \<open>CompletedProcess\<close> is returned; both carry the command, the return
  code and the joined chunks of standard output and standard error.
\<close>

theorem run_process_outcomes:
  "(open_process command (case command of Shell c \<Rightarrow> True | Argv a \<Rightarrow> False)
      (if truthy input then PIPE else DEVNULL) stdout stderr = Inl x \<longrightarrow>
      run_process open_process command input stdout stderr check = (Inl x, False)) \<and>
   (open_process command (case command of Shell c \<Rightarrow> True | Argv a \<Rightarrow> False)
      (if truthy input then PIPE else DEVNULL) stdout stderr = Inr process \<longrightarrow>
      (if clean process input
       then run_process open_process command input stdout stderr check =
              (if check \<and> p_returncode process \<noteq> 0
               then Inl (CalledProcessError (p_returncode process) command
                           (map_option concat (p_stdout process))
                           (map_option concat (p_stderr process)))
               else Inr (CompletedProcess command (p_returncode process)
                           (map_option concat (p_stdout process))
                           (map_option concat (p_stderr process))),
               False)
       else (\<exists>y. streaming_block process input = Inl y \<and>
                  run_process open_process command input stdout stderr check = (Inl y, True))))"
proof -
  have failed: "open_process command (case command of Shell c \<Rightarrow> True | Argv a \<Rightarrow> False)
      (if truthy input then PIPE else DEVNULL) stdout stderr = Inl x \<longrightarrow>
      run_process open_process command input stdout stderr check = (Inl x, False)"
    by (simp add: run_process_def)
  have opened: "open_process command (case command of Shell c \<Rightarrow> True | Argv a \<Rightarrow> False)
      (if truthy input then PIPE else DEVNULL) stdout stderr = Inr process \<longrightarrow>
      (if clean process input
       then run_process open_process command input stdout stderr check =
              (if check \<and> p_returncode process \<noteq> 0
               then Inl (CalledProcessError (p_returncode process) command
                           (map_option concat (p_stdout process))
                           (map_option concat (p_stderr process)))
               else Inr (CompletedProcess command (p_returncode process)
                           (map_option concat (p_stdout process))
                           (map_option concat (p_stderr process))),
               False)
       else (\<exists>y. streaming_block process input = Inl y \<and>
                  run_process open_process command input stdout stderr check = (Inl y, True)))"
  proof (cases "clean process input")
    case True
    then show ?thesis
      by (simp add: run_process_def streaming_block_clean)
  next
    case False
    then obtain y where "streaming_block process input = Inl y"
      using streaming_block_raises by blast
    with False show ?thesis
      by (simp add: run_process_def)
  qed
  from failed opened show ?thesis by blast
qed

theorem run_process_outcomes_witness:
  "run_process (opens exits_1) (Argv [''false'']) None PIPE PIPE True
     = (Inl (CalledProcessError 1 (Argv [''false'']) (Some ''abc'') (Some [])), False) \<and>
   run_process (opens exits_1) (Argv [''false'']) None PIPE PIPE False
     = (Inr (CompletedProcess (Argv [''false'']) 1 (Some ''abc'') (Some [])), False) \<and>
   run_process (opens wait_cancelled) (Argv [''false'']) None PIPE PIPE True
     = (Inl CancelledError, True) \<and>
   run_process cannot_open (Argv [''false'']) None PIPE PIPE True
     = (Inl (OSError ''No such file or directory'' None), False)"
proof -
  have c1: "clean exits_1 None" and c2: "\<not> clean wait_cancelled None"
    by (simp_all add: clean_def feed_and_wait_def exits_1_def wait_cancelled_def truthy_def)
  have sb: "streaming_block wait_cancelled None = Inl CancelledError"
    by (simp add: streaming_block_def feed_and_wait_def exits_1_def wait_cancelled_def truthy_def
          raise_all_def drain_stream_def)
  have 1: "run_process (opens exits_1) (Argv [''false'']) None PIPE PIPE True
     = (Inl (CalledProcessError 1 (Argv [''false'']) (Some ''abc'') (Some [])), False)"
    using run_process_outcomes [where open_process = "opens exits_1" and process = exits_1
        and command = "Argv [''false'']" and input = None and stdout = PIPE and stderr = PIPE
        and check = True] c1
    by (simp add: opens_def exits_1_def)
  have 2: "run_process (opens exits_1) (Argv [''false'']) None PIPE PIPE False
     = (Inr (CompletedProcess (Argv [''false'']) 1 (Some ''abc'') (Some [])), False)"
    using run_process_outcomes [where open_process = "opens exits_1" and process = exits_1
        and command = "Argv [''false'']" and input = None and stdout = PIPE and stderr = PIPE
        and check = False] c1
    by (simp add: opens_def exits_1_def)
  have 3: "run_process (opens wait_cancelled) (Argv [''false'']) None PIPE PIPE True
     = (Inl CancelledError, True)"
    using run_process_outcomes [where open_process = "opens wait_cancelled"
        and process = wait_cancelled and command = "Argv [''false'']" and input = None
        and stdout = PIPE and stderr = PIPE and check = True] c2 sb
    by (simp add: opens_def)
  have 4: "run_process cannot_open (Argv [''false'']) None PIPE PIPE True
     = (Inl (OSError ''No such file or directory'' None), False)"
    using run_process_outcomes [where open_process = cannot_open
        and command = "Argv [''false'']" and input = None and stdout = PIPE and stderr = PIPE
        and check = True and x = "OSError ''No such file or directory'' None"]
    by (simp add: cannot_open_def)
  from 1 2 3 4 show ?thesis by blast
qed


end
